theory Spec2Isabelle
  imports Complex_Main
begin

section \<open>Data model\<close>

text \<open>
  JavaScript numbers are modelled as mathematical reals (coordinates, pixel positions,
  zoom, \<open>performance.now()\<close>) or integers (\<open>Date.now()\<close>, indices, scroll offsets):
  rounding, NaN and the infinities are outside the model. A record field cannot share
  its name with a field of another record, so the fields \<open>x\<close>, \<open>y\<close>, \<open>z\<close> of a
  landmark are \<open>lm_x\<close>, \<open>lm_y\<close>, \<open>lm_z\<close> and those of a 2-D position are
  \<open>px\<close>, \<open>py\<close>.
\<close>

record landmark =
  lm_x :: real
  lm_y :: real
  lm_z :: real

record point =
  px :: real
  py :: real

datatype handedness = Left | Right

text \<open>\<open>HandData\<close> of \<open>useHandTracking\<close>.\<close>

record handData =
  landmarks :: "landmark list"
  handedness :: handedness
  isPinching :: bool
  pinchPosition :: point
  pinchStrength :: real
  isThumbsUp :: bool
  isThumbsDown :: bool
  isOpenPalm :: bool

text \<open>
  Reading a property of \<open>landmarks[i]\<close> when \<open>i\<close> is out of range throws a
  \<open>TypeError\<close> in JavaScript (\<open>landmarks[i]\<close> is \<open>undefined\<close>).
\<close>

datatype error = TypeError

definition PINCH_THRESHOLD :: real where
  "PINCH_THRESHOLD = 0.08"

definition THUMB_GESTURE_THRESHOLD :: real where
  "THUMB_GESTURE_THRESHOLD = 0.06"

section \<open>Gesture classifier\<close>

text \<open>The object returned by \<open>calculatePinch\<close>: \<open>{isPinching, position, strength}\<close>.\<close>

record pinchData =
  p_isPinching :: bool
  p_position :: point
  p_strength :: real

text \<open>
  \<open>calculatePinch\<close> reads \<open>landmarks[4]\<close> and \<open>landmarks[8]\<close>; with fewer than nine
  landmarks one of them is \<open>undefined\<close> and the first subtraction throws.
\<close>

definition calculatePinch :: "landmark list \<Rightarrow> error + pinchData" where
  "calculatePinch lms =
     (if length lms \<le> 8 then Inl TypeError
      else
        let thumbTip = lms ! 4;
            indexTip = lms ! 8;
            distance = sqrt ((lm_x thumbTip - lm_x indexTip)\<^sup>2 +
                             (lm_y thumbTip - lm_y indexTip)\<^sup>2 +
                             (lm_z thumbTip - lm_z indexTip)\<^sup>2);
            isPinching' = (distance < PINCH_THRESHOLD);
            strength = max 0 (1 - distance / PINCH_THRESHOLD)
        in Inr \<lparr>p_isPinching = isPinching',
                p_position = \<lparr>px = (lm_x thumbTip + lm_x indexTip) / 2,
                                py = (lm_y thumbTip + lm_y indexTip) / 2\<rparr>,
                p_strength = strength\<rparr>)"

text \<open>The object returned by \<open>detectThumbGesture\<close>: \<open>{isThumbsUp, isThumbsDown}\<close>.\<close>

record thumbGesture =
  g_isThumbsUp :: bool
  g_isThumbsDown :: bool

text \<open>
  \<open>fingersCurled\<close> is a chain of \<open>&&\<close>: a comparison is evaluated, and can throw, only
  when all comparisons before it were true.
\<close>

definition fingersCurled :: "landmark list \<Rightarrow> error + bool" where
  "fingersCurled lms =
     (if length lms \<le> 8 then Inl TypeError
      else if \<not> lm_y (lms ! 8) > lm_y (lms ! 6) then Inr False
      else if length lms \<le> 12 then Inl TypeError
      else if \<not> lm_y (lms ! 12) > lm_y (lms ! 10) then Inr False
      else if length lms \<le> 16 then Inl TypeError
      else if \<not> lm_y (lms ! 16) > lm_y (lms ! 14) then Inr False
      else if length lms \<le> 20 then Inl TypeError
      else Inr (lm_y (lms ! 20) > lm_y (lms ! 18)))"

definition detectThumbGesture :: "landmark list \<Rightarrow> error + thumbGesture" where
  "detectThumbGesture lms =
     (case fingersCurled lms of
        Inl e \<Rightarrow> Inl e
      | Inr curled \<Rightarrow>
          let thumbTip = lms ! 4;
              thumbCMC = lms ! 1;
              wrist = lms ! 0;
              thumbExtended = (\<bar>lm_x thumbTip - lm_x wrist\<bar> > 0.05 \<or>
                               \<bar>lm_y thumbTip - lm_y wrist\<bar> > 0.1);
              thumbVertical = lm_y thumbCMC - lm_y thumbTip
          in Inr \<lparr>g_isThumbsUp =
                    (curled \<and> thumbExtended \<and> thumbVertical > THUMB_GESTURE_THRESHOLD),
                  g_isThumbsDown =
                    (curled \<and> thumbExtended \<and> thumbVertical < - THUMB_GESTURE_THRESHOLD)\<rparr>)"

text \<open>
  \<open>detectOpenPalm\<close>: \<open>fingerTips.every(...)\<close> stops at the first finger that is not
  extended; the thumb test is evaluated afterwards in every case.
\<close>

fun every_extended :: "landmark list \<Rightarrow> (nat \<times> nat) list \<Rightarrow> error + bool" where
  "every_extended lms [] = Inr True"
| "every_extended lms ((tipIdx, pipIdx) # rest) =
     (if length lms \<le> tipIdx \<or> length lms \<le> pipIdx then Inl TypeError
      else if lm_y (lms ! tipIdx) < lm_y (lms ! pipIdx) then every_extended lms rest
      else Inr False)"

definition detectOpenPalm :: "landmark list \<Rightarrow> error + bool" where
  "detectOpenPalm lms =
     (case every_extended lms [(8, 6), (12, 10), (16, 14), (20, 18)] of
        Inl e \<Rightarrow> Inl e
      | Inr fingersExtended \<Rightarrow>
          if length lms \<le> 4 then Inl TypeError
          else
            let thumbTip = lms ! 4;
                thumbMCP = lms ! 2;
                thumbExtended = (\<bar>lm_x thumbTip - lm_x thumbMCP\<bar> > 0.05)
            in Inr (fingersExtended \<and> thumbExtended))"

text \<open>The spec's \<open>clamp(v, lo, hi)\<close>.\<close>

definition clamp :: "real \<Rightarrow> real \<Rightarrow> real \<Rightarrow> real" where
  "clamp v lo hi = max lo (min hi v)"

text \<open>The spec's thumb-to-index distance: Euclidean, in \<open>(x, y, z)\<close>.\<close>

definition tipDistance :: "landmark list \<Rightarrow> real" where
  "tipDistance lms =
     sqrt ((lm_x (lms ! 4) - lm_x (lms ! 8))\<^sup>2 +
           (lm_y (lms ! 4) - lm_y (lms ! 8))\<^sup>2 +
           (lm_z (lms ! 4) - lm_z (lms ! 8))\<^sup>2)"

section \<open>Frame assembler\<close>

text \<open>
  One entry of \<open>results.multiHandedness\<close>; only its \<open>label\<close> is read. Either array of
  \<open>results\<close> may be missing (\<open>undefined\<close>).
\<close>

record classification =
  label :: string

record results =
  multiHandLandmarks :: "landmark list list option"
  multiHandedness :: "classification list option"

text \<open>
  The state of \<open>useHandTracking\<close>: the published \<open>HandTrackingState\<close> and the ref
  \<open>lastProcessTime\<close>.
\<close>

record tracker =
  leftHand :: "handData option"
  rightHand :: "handData option"
  isReady :: bool
  lastProcessTime :: real

definition initialTracker :: tracker where
  "initialTracker = \<lparr>leftHand = None, rightHand = None, isReady = False, lastProcessTime = 0\<rparr>"

text \<open>The body of the loop of \<open>processResults\<close> up to the construction of \<open>handData\<close>.\<close>

definition actualHandedness :: "classification \<Rightarrow> handedness" where
  "actualHandedness c = (if label c = ''Left'' then Right else Left)"

definition buildHandData :: "landmark list \<Rightarrow> classification \<Rightarrow> error + handData" where
  "buildHandData lms c =
     (case calculatePinch lms of
        Inl e \<Rightarrow> Inl e
      | Inr pinchData \<Rightarrow>
          (case detectThumbGesture lms of
             Inl e \<Rightarrow> Inl e
           | Inr thumbGesture \<Rightarrow>
               (case detectOpenPalm lms of
                  Inl e \<Rightarrow> Inl e
                | Inr openPalm \<Rightarrow>
                    Inr \<lparr>landmarks = lms,
                         handedness = actualHandedness c,
                         isPinching = p_isPinching pinchData,
                         pinchPosition = p_position pinchData,
                         pinchStrength = p_strength pinchData,
                         isThumbsUp = g_isThumbsUp thumbGesture,
                         isThumbsDown = g_isThumbsDown thumbGesture,
                         isOpenPalm = openPalm\<rparr>)))"

text \<open>
  The loop of \<open>processResults\<close> over \<open>multiHandLandmarks\<close>, carrying the local variables
  \<open>leftHand\<close> and \<open>rightHand\<close>. A missing entry of \<open>multiHandedness\<close> is \<open>undefined\<close>
  and reading its \<open>label\<close> throws.
\<close>

fun assignHands ::
  "landmark list list \<Rightarrow> classification list \<Rightarrow> handData option \<times> handData option \<Rightarrow>
     error + (handData option \<times> handData option)" where
  "assignHands [] cs acc = Inr acc"
| "assignHands (lms # rest) [] acc = Inl TypeError"
| "assignHands (lms # rest) (c # cs) (leftHand', rightHand') =
     (case buildHandData lms c of
        Inl e \<Rightarrow> Inl e
      | Inr hand \<Rightarrow>
          if actualHandedness c = Left then assignHands rest cs (Some hand, rightHand')
          else assignHands rest cs (leftHand', Some hand))"

datatype outcome = Dropped | Published | Threw error

text \<open>
  \<open>processResults\<close>, with \<open>performance.now()\<close> as the parameter \<open>now\<close>. An exception
  leaves the callback after \<open>lastProcessTime\<close> was written and before \<open>setState\<close>.
\<close>

definition processResults :: "real \<Rightarrow> results \<Rightarrow> tracker \<Rightarrow> tracker \<times> outcome" where
  "processResults now res t =
     (if now - lastProcessTime t < 16 then (t, Dropped)
      else
        let t1 = t\<lparr>lastProcessTime := now\<rparr> in
        (case (multiHandLandmarks res, multiHandedness res) of
           (Some lmss, Some cs) \<Rightarrow>
             (case assignHands lmss cs (None, None) of
                Inl e \<Rightarrow> (t1, Threw e)
              | Inr (leftHand', rightHand') \<Rightarrow>
                  (t1\<lparr>leftHand := leftHand', rightHand := rightHand'\<rparr>, Published))
         | _ \<Rightarrow> (t1\<lparr>leftHand := None, rightHand := None\<rparr>, Published)))"

text \<open>
  The contract of the landmark source (spec, section 6): every detected hand has 21
  landmarks and its own handedness entry.
\<close>

definition wellFormed :: "results \<Rightarrow> bool" where
  "wellFormed res =
     (case (multiHandLandmarks res, multiHandedness res) of
        (Some lmss, Some cs) \<Rightarrow> list_all (\<lambda>lms. length lms = 21) lmss \<and> length lmss \<le> length cs
      | _ \<Rightarrow> True)"

text \<open>The detections of one callback, in order: landmark set and handedness entry.\<close>

definition detections :: "results \<Rightarrow> (landmark list \<times> classification) list" where
  "detections res =
     (case (multiHandLandmarks res, multiHandedness res) of
        (Some lmss, Some cs) \<Rightarrow> zip lmss cs
      | _ \<Rightarrow> [])"

text \<open>The last detection of a list, if there is one, as the hand it is classified to.\<close>

definition lastHand :: "(landmark list \<times> classification) list \<Rightarrow> handData option" where
  "lastHand ds =
     (case rev ds of
        [] \<Rightarrow> None
      | (lms, c) # _ \<Rightarrow> (case buildHandData lms c of Inl e \<Rightarrow> None | Inr hand \<Rightarrow> Some hand))"

text \<open>The first option if it is present, else the second.\<close>

definition orElse :: "'a option \<Rightarrow> 'a option \<Rightarrow> 'a option" where
  "orElse a b = (case a of None \<Rightarrow> b | Some h \<Rightarrow> Some h)"

section \<open>Gallery: discrete navigation and drag\<close>

text \<open>\<open>GalleryImage\<close>; the field \<open>id\<close> is \<open>img_id\<close> here.\<close>

record galleryImage =
  img_id :: string
  img_src :: string
  img_title :: string

text \<open>\<open>GALLERY_IMAGES\<close> of the gallery with thumb navigation.\<close>

definition GALLERY_IMAGES :: "galleryImage list" where
  "GALLERY_IMAGES =
     [\<lparr>img_id = ''1'', img_src = ''/gallery/image1.jpg'', img_title = ''codeforces''\<rparr>,
      \<lparr>img_id = ''2'', img_src = ''/gallery/image2.jpg'', img_title = ''kep.uz''\<rparr>,
      \<lparr>img_id = ''3'', img_src = ''/gallery/image3.jpg'', img_title = ''acmp.ru''\<rparr>,
      \<lparr>img_id = ''4'', img_src = ''/gallery/image4.jpg'', img_title = ''linux''\<rparr>,
      \<lparr>img_id = ''5'', img_src = ''/gallery/image5.jpg'', img_title = ''olympiad 1''\<rparr>,
      \<lparr>img_id = ''6'', img_src = ''/gallery/image6.jpg'', img_title = ''olympiad 2''\<rparr>,
      \<lparr>img_id = ''7'', img_src = ''/gallery/image7.jpg'', img_title = ''olympiad 3''\<rparr>,
      \<lparr>img_id = ''8'', img_src = ''/gallery/image8.jpg'', img_title = ''sarmolabs''\<rparr>,
      \<lparr>img_id = ''9'', img_src = ''/gallery/image9.jpg'', img_title = ''presTechAward''\<rparr>,
      \<lparr>img_id = ''10'', img_src = ''/gallery/image10.jpg'', img_title = ''peony.uz''\<rparr>,
      \<lparr>img_id = ''11'', img_src = ''/gallery/image11.gif'', img_title = ''hackathon''\<rparr>,
      \<lparr>img_id = ''12'', img_src = ''/gallery/image12.jpg'', img_title = ''github''\<rparr>,
      \<lparr>img_id = ''13'', img_src = ''/gallery/image13.jpg'', img_title = ''almaty''\<rparr>,
      \<lparr>img_id = ''14'', img_src = ''/gallery/image14.jpg'', img_title = ''marathons''\<rparr>,
      \<lparr>img_id = ''15'', img_src = ''/gallery/image15.jpg'', img_title = ''marathons''\<rparr>,
      \<lparr>img_id = ''16'', img_src = ''/gallery/image16.jpg'', img_title = ''marathons''\<rparr>,
      \<lparr>img_id = ''17'', img_src = ''/gallery/image17.jpg'', img_title = ''run''\<rparr>,
      \<lparr>img_id = ''18'', img_src = ''/gallery/image18.jpg'', img_title = ''run''\<rparr>,
      \<lparr>img_id = ''19'', img_src = ''/gallery/image19.jpg'', img_title = ''run''\<rparr>,
      \<lparr>img_id = ''20'', img_src = ''/gallery/image20.jpg'', img_title = ''run''\<rparr>,
      \<lparr>img_id = ''21'', img_src = ''/gallery/image21.jpg'', img_title = ''run''\<rparr>,
      \<lparr>img_id = ''22'', img_src = ''/gallery/image22.jpg'', img_title = ''run''\<rparr>,
      \<lparr>img_id = ''23'', img_src = ''/gallery/image23.jpg'', img_title = ''run''\<rparr>]"

datatype scrollDir = Up | Down

text \<open>The state and refs of the \<open>ImageGallery\<close> component.\<close>

record gallery =
  scrollY :: int
  hoveredImage :: "string option"
  draggedImage :: "galleryImage option"
  dragPosition :: point
  isThumbScrolling :: "scrollDir option"
  lastPinchState :: bool
  lastThumbActionTime :: int
  lastSelectedId :: "string option"

definition initialGallery :: gallery where
  "initialGallery =
     \<lparr>scrollY = 0, hoveredImage = None, draggedImage = None,
      dragPosition = \<lparr>px = 0, py = 0\<rparr>, isThumbScrolling = None,
      lastPinchState = False, lastThumbActionTime = 0, lastSelectedId = None\<rparr>"

text \<open>
  The calls the gallery makes on its parent: \<open>onImageSelect(image, dragPosition)\<close>, whose
  image is \<open>undefined\<close> when the index is out of range and whose position is optional,
  and \<open>setIsDragging\<close>.
\<close>

datatype galleryEvent =
  OnImageSelect "galleryImage option" "point option"
| SetIsDragging bool

text \<open>\<open>Array.prototype.findIndex\<close>: the first index whose element satisfies \<open>P\<close>, or -1.\<close>

fun findIndex :: "('a \<Rightarrow> bool) \<Rightarrow> 'a list \<Rightarrow> int" where
  "findIndex P [] = - 1"
| "findIndex P (a # as) =
     (if P a then 0 else (let r = findIndex P as in if r < 0 then - 1 else r + 1))"

text \<open>\<open>array[i]\<close>: \<open>undefined\<close> out of range.\<close>

definition item_at :: "'a list \<Rightarrow> int \<Rightarrow> 'a option" where
  "item_at xs i = (if 0 \<le> i \<and> i < int (length xs) then Some (xs ! nat i) else None)"

text \<open>The effect that keeps \<open>lastSelectedId\<close>.\<close>

definition trackSelected :: "galleryImage option \<Rightarrow> gallery \<Rightarrow> gallery" where
  "trackSelected selectedImage g =
     (case selectedImage of
        Some img \<Rightarrow> g\<lparr>lastSelectedId := Some (img_id img)\<rparr>
      | None \<Rightarrow> g)"

text \<open>
  The index \<open>currentIndex\<close> computed in both branches of the thumb effect, from its
  initial value \<open>start\<close> (-1 for next, 0 for previous). An empty string is falsy, so an
  empty \<open>lastSelectedId\<close> counts as none.
\<close>

definition currentIndex ::
  "int \<Rightarrow> galleryImage list \<Rightarrow> galleryImage option \<Rightarrow> string option \<Rightarrow> int" where
  "currentIndex start images selectedImage lastId =
     (case selectedImage of
        Some sel \<Rightarrow> findIndex (\<lambda>img. img_id img = img_id sel) images
      | None \<Rightarrow>
          (case lastId of
             Some l \<Rightarrow> if l \<noteq> [] then findIndex (\<lambda>img. img_id img = l) images else start
           | None \<Rightarrow> start))"

text \<open>
  The effect "thumbs up/down for next/prev image", with \<open>Date.now()\<close> as the parameter
  \<open>now\<close> and \<open>GALLERY_IMAGES\<close> as the parameter \<open>images\<close>. It returns the new component
  state and the calls made on the parent.
\<close>

definition thumbNavigation ::
  "galleryImage list \<Rightarrow> int \<Rightarrow> handData option \<Rightarrow> galleryImage option \<Rightarrow> gallery \<Rightarrow>
     gallery \<times> galleryEvent list" where
  "thumbNavigation images now rightHand' selectedImage g =
     (case rightHand' of
        None \<Rightarrow> (g\<lparr>isThumbScrolling := None\<rparr>, [])
      | Some h \<Rightarrow>
          if draggedImage g \<noteq> None then (g\<lparr>isThumbScrolling := None\<rparr>, [])
          else if now - lastThumbActionTime g < 1000 then (g, [])
          else if isThumbsUp h then
            let cur = currentIndex (- 1) images selectedImage (lastSelectedId g);
                nextIndex = (if cur + 1 < int (length images) then cur + 1 else 0);
                nextImage = item_at images nextIndex;
                targetScroll = max 0 (nextIndex * 140 - 100)
            in (g\<lparr>isThumbScrolling := Some Down, lastThumbActionTime := now,
                   scrollY := targetScroll\<rparr>,
                [OnImageSelect nextImage None])
          else if isThumbsDown h then
            let cur = currentIndex 0 images selectedImage (lastSelectedId g);
                prevIndex = (if cur - 1 \<ge> 0 then cur - 1 else int (length images) - 1);
                prevImage = item_at images prevIndex;
                targetScroll = max 0 (prevIndex * 140 - 100)
            in (g\<lparr>isThumbScrolling := Some Up, lastThumbActionTime := now,
                   scrollY := targetScroll\<rparr>,
                [OnImageSelect prevImage None])
          else (g\<lparr>isThumbScrolling := None\<rparr>, []))"

text \<open>
  The spec's "current index": \<open>i\<close> is the index, in a collection with distinct ids, of
  the selected image or, when none is selected, of the image with the last selected id.
\<close>

definition knownCurrent ::
  "galleryImage list \<Rightarrow> galleryImage option \<Rightarrow> string option \<Rightarrow> nat \<Rightarrow> bool" where
  "knownCurrent images sel lastId i \<longleftrightarrow>
     i < length images \<and> distinct (map img_id images) \<and>
     (case sel of
        Some s \<Rightarrow> img_id s = img_id (images ! i)
      | None \<Rightarrow> lastId = Some (img_id (images ! i)) \<and> img_id (images ! i) \<noteq> [])"

text \<open>\<open>window.innerWidth\<close> and \<open>window.innerHeight\<close>.\<close>

record window =
  innerWidth :: real
  innerHeight :: real

text \<open>
  The effect "handle dragging image" (the same text in both versions of the gallery).
\<close>

definition dragRelease ::
  "window \<Rightarrow> handData option \<Rightarrow> gallery \<Rightarrow> gallery \<times> galleryEvent list" where
  "dragRelease w rightHand' g =
     (case draggedImage g of
        None \<Rightarrow> (g, [])
      | Some dragged \<Rightarrow>
          (case rightHand' of
             None \<Rightarrow> (g, [])
           | Some h \<Rightarrow>
               let pinchX = (1 - px (pinchPosition h)) * innerWidth w;
                   pinchY = py (pinchPosition h) * innerHeight w;
                   g1 = g\<lparr>dragPosition := \<lparr>px = pinchX, py = pinchY\<rparr>\<rparr>
               in if \<not> isPinching h then
                    (g1\<lparr>draggedImage := None\<rparr>,
                     (if pinchX < innerWidth w * 0.75
                      then [OnImageSelect (Some dragged) (Some \<lparr>px = pinchX, py = pinchY\<rparr>)]
                      else []) @ [SetIsDragging False])
                  else (g1, [])))"

text \<open>
  The state of the page that the gallery's calls change: \<open>handleImageSelect\<close> and
  \<open>setIsDragging\<close>.
\<close>

record page =
  selectedImage :: "galleryImage option"
  isDragging :: bool
  initialDragPos :: "point option"

fun handleEvent :: "galleryEvent \<Rightarrow> page \<Rightarrow> page" where
  "handleEvent (OnImageSelect image' dragPos) pg =
     pg\<lparr>selectedImage := image', initialDragPos := dragPos\<rparr>"
| "handleEvent (SetIsDragging b) pg = pg\<lparr>isDragging := b\<rparr>"

text \<open>
  One run of the two navigation effects, in their order of declaration, at time \<open>now\<close>
  with the right hand of the current snapshot; the calls made are applied to the page.
  \<open>navRun\<close> runs them over a sequence of such ticks and collects the calls.
\<close>

definition navTick ::
  "galleryImage list \<Rightarrow> int \<times> handData option \<Rightarrow> page \<times> gallery \<Rightarrow>
     (page \<times> gallery) \<times> galleryEvent list" where
  "navTick images tick s =
     (let g1 = trackSelected (selectedImage (fst s)) (snd s);
          (g2, evs) = thumbNavigation images (fst tick) (snd tick) (selectedImage (fst s)) g1
      in ((fold handleEvent evs (fst s), g2), evs))"

fun navRun ::
  "galleryImage list \<Rightarrow> (int \<times> handData option) list \<Rightarrow> page \<times> gallery \<Rightarrow>
     galleryEvent list" where
  "navRun images [] s = []"
| "navRun images (tick # ticks) s =
     (let (s', evs) = navTick images tick s in evs @ navRun images ticks s')"

text \<open>The page before anything is selected.\<close>

definition initialPage :: page where
  "initialPage = \<lparr>selectedImage = None, isDragging = False, initialDragPos = None\<rparr>"

section \<open>Viewer: move/dismiss and zoom/pan\<close>

text \<open>
  The state and refs of the \<open>ImageViewer\<close> component; the ref \<open>isPinching\<close> is
  \<open>isPinchingRef\<close> here.
\<close>

record viewer =
  zoom :: real
  pan :: point
  isDraggingWithRight :: bool
  isInDismissZone :: bool
  isDismissing :: bool
  lastPinchY :: real
  lastPinchX :: real
  isPinchingRef :: bool
  rightPinchStart :: "point option"

definition initialViewer :: viewer where
  "initialViewer =
     \<lparr>zoom = 1, pan = \<lparr>px = 0, py = 0\<rparr>, isDraggingWithRight = False,
      isInDismissZone = False, isDismissing = False, lastPinchY = 0, lastPinchX = 0,
      isPinchingRef = False, rightPinchStart = None\<rparr>"

text \<open>
  The right-hand effect. It returns the new state and the delays of the timeouts it
  sets; the only callback ever set is \<open>dismissTimeout\<close>.
\<close>

definition moveDismiss ::
  "window \<Rightarrow> galleryImage option \<Rightarrow> handData option \<Rightarrow> viewer \<Rightarrow> viewer \<times> nat list" where
  "moveDismiss w image' rightHand' v =
     (case image' of
        None \<Rightarrow> (v, [])
      | Some _ \<Rightarrow>
          (case rightHand' of
             None \<Rightarrow> (v, [])
           | Some h \<Rightarrow>
               if isDismissing v then (v, [])
               else
                 let pinchX = (1 - px (pinchPosition h)) * innerWidth w;
                     pinchY = py (pinchPosition h) * innerHeight w;
                     isInMainView = (pinchX < innerWidth w * 0.75)
                 in if isPinching h \<and> isInMainView then
                      (case rightPinchStart v of
                         None \<Rightarrow>
                           (v\<lparr>rightPinchStart := Some \<lparr>px = pinchX, py = pinchY\<rparr>,
                              isDraggingWithRight := True\<rparr>, [])
                       | Some start \<Rightarrow>
                           let deltaX = pinchX - px start;
                               deltaY = pinchY - py start;
                               dismissThreshold = innerHeight w * 0.85
                           in (v\<lparr>pan := \<lparr>px = deltaX, py = deltaY\<rparr>,
                                 isInDismissZone := (pinchY > dismissThreshold)\<rparr>, []))
                    else if \<not> isPinching h \<and> rightPinchStart v \<noteq> None then
                      (if isInDismissZone v then
                         (v\<lparr>isDismissing := True, rightPinchStart := None,
                            isDraggingWithRight := False, isInDismissZone := False\<rparr>, [400])
                       else
                         (v\<lparr>pan := \<lparr>px = 0, py = 0\<rparr>, rightPinchStart := None,
                            isDraggingWithRight := False, isInDismissZone := False\<rparr>, []))
                    else (v, [])))"

datatype viewerEvent = OnClose

text \<open>The callback of the timeout: \<open>onClose()\<close>, then the two flags are cleared.\<close>

definition dismissTimeout :: "viewer \<Rightarrow> viewer \<times> viewerEvent list" where
  "dismissTimeout v = (v\<lparr>isDismissing := False, isInDismissZone := False\<rparr>, [OnClose])"

text \<open>The left-hand effect.\<close>

definition zoomPan :: "window \<Rightarrow> galleryImage option \<Rightarrow> handData option \<Rightarrow> viewer \<Rightarrow> viewer" where
  "zoomPan w image' leftHand' v =
     (case image' of
        None \<Rightarrow> v
      | Some _ \<Rightarrow>
          (case leftHand' of
             None \<Rightarrow> v
           | Some h \<Rightarrow>
               if isDraggingWithRight v then v
               else
                 let pinchY = py (pinchPosition h) * innerHeight w;
                     pinchX = (1 - px (pinchPosition h)) * innerWidth w
                 in if isPinching h then
                      (if \<not> isPinchingRef v then
                         v\<lparr>lastPinchY := pinchY, lastPinchX := pinchX, isPinchingRef := True\<rparr>
                       else
                         let deltaY = pinchY - lastPinchY v;
                             deltaX = pinchX - lastPinchX v;
                             v1 = (if \<bar>deltaY\<bar> > \<bar>deltaX\<bar> * 0.5
                                   then v\<lparr>zoom := max 0.5 (min 4 (zoom v + (- deltaY * 0.008)))\<rparr>
                                   else v);
                             v2 = (if \<bar>deltaX\<bar> > 5
                                   then v1\<lparr>pan := \<lparr>px = max (- 300) (min 300 (px (pan v1) + deltaX * 0.5)),
                                                   py = py (pan v1)\<rparr>\<rparr>
                                   else v1)
                         in v2\<lparr>lastPinchY := pinchY, lastPinchX := pinchX\<rparr>)
                    else v\<lparr>isPinchingRef := False\<rparr>))"

text \<open>
  The pixel position of a pinch, as every effect of the viewer and of the gallery
  computes it first: \<open>x\<close> is mirrored.
\<close>

definition pixelX :: "window \<Rightarrow> handData \<Rightarrow> real" where
  "pixelX w h = (1 - px (pinchPosition h)) * innerWidth w"

definition pixelY :: "window \<Rightarrow> handData \<Rightarrow> real" where
  "pixelY w h = py (pinchPosition h) * innerHeight w"

section \<open>Sample inputs\<close>

text \<open>Concrete hands of 21 landmarks, given by a function of the landmark index.\<close>

definition sampleHand :: "(nat \<Rightarrow> landmark) \<Rightarrow> landmark list" where
  "sampleHand f = map f [0..<21]"

definition atOrigin :: landmark where
  "atOrigin = \<lparr>lm_x = 0, lm_y = 0, lm_z = 0\<rparr>"

text \<open>All landmarks at the origin: thumb tip and index tip coincide.\<close>

definition closedHand :: "landmark list" where
  "closedHand = sampleHand (\<lambda>i. atOrigin)"

text \<open>The thumb tip at distance 1 from the index tip.\<close>

definition farHand :: "landmark list" where
  "farHand = sampleHand (\<lambda>i. if i = 4 then \<lparr>lm_x = 1, lm_y = 0, lm_z = 0\<rparr> else atOrigin)"

text \<open>
  Four fingers curled (tips at \<open>y = 0.6\<close> below their PIP joints at \<open>y = 0.5\<close>), the
  wrist at \<open>(0.5, 0.8)\<close>, the thumb base at \<open>y = 0.7\<close> and the thumb tip at
  \<open>(0.6, tipY)\<close>.
\<close>

definition fistHand :: "real \<Rightarrow> landmark list" where
  "fistHand tipY =
     sampleHand (\<lambda>i.
       if i = 0 then \<lparr>lm_x = 0.5, lm_y = 0.8, lm_z = 0\<rparr>
       else if i = 1 then \<lparr>lm_x = 0.5, lm_y = 0.7, lm_z = 0\<rparr>
       else if i = 4 then \<lparr>lm_x = 0.6, lm_y = tipY, lm_z = 0\<rparr>
       else if i = 8 \<or> i = 12 \<or> i = 16 \<or> i = 20 then \<lparr>lm_x = 0.5, lm_y = 0.6, lm_z = 0\<rparr>
       else \<lparr>lm_x = 0.5, lm_y = 0.5, lm_z = 0\<rparr>)"

text \<open>Two detections with the same source label, and one detection of each label.\<close>

definition twoLeftLabels :: results where
  "twoLeftLabels =
     \<lparr>multiHandLandmarks = Some [fistHand 0.6, fistHand 0.8],
      multiHandedness = Some [\<lparr>label = ''Left''\<rparr>, \<lparr>label = ''Left''\<rparr>]\<rparr>"

definition bothHands :: results where
  "bothHands =
     \<lparr>multiHandLandmarks = Some [fistHand 0.6, closedHand],
      multiHandedness = Some [\<lparr>label = ''Left''\<rparr>, \<lparr>label = ''Right''\<rparr>]\<rparr>"

text \<open>A window of 1000 by 1000 pixels, a hand signal with the given pinch position and
  gesture flags, the third image of the gallery, and the viewer after a right-hand pinch
  began at the centre of the window.\<close>

definition sampleWindow :: window where
  "sampleWindow = \<lparr>innerWidth = 1000, innerHeight = 1000\<rparr>"

definition sampleHandData :: "real \<Rightarrow> real \<Rightarrow> bool \<Rightarrow> bool \<Rightarrow> bool \<Rightarrow> handData" where
  "sampleHandData posX posY pinching up down =
     \<lparr>landmarks = closedHand, handedness = Right, isPinching = pinching,
      pinchPosition = \<lparr>px = posX, py = posY\<rparr>,
      pinchStrength = (if pinching then 1 else 0),
      isThumbsUp = up, isThumbsDown = down, isOpenPalm = False\<rparr>"

definition sampleImage :: galleryImage where
  "sampleImage = \<lparr>img_id = ''3'', img_src = ''/gallery/image3.jpg'', img_title = ''acmp.ru''\<rparr>"

definition engagedViewer :: viewer where
  "engagedViewer =
     initialViewer\<lparr>rightPinchStart := Some \<lparr>px = 500, py = 500\<rparr>, isDraggingWithRight := True\<rparr>"

text \<open>The viewer after a left-hand pinch was captured at the centre of the window.\<close>

definition latchedViewer :: viewer where
  "latchedViewer = initialViewer\<lparr>lastPinchY := 500, lastPinchX := 500, isPinchingRef := True\<rparr>"

text \<open>
  A collection of five items (the first five of the gallery), hands showing thumbs-up,
  thumbs-down and no gesture, and a gallery with the third image being dragged.
\<close>

definition fiveImages :: "galleryImage list" where
  "fiveImages =
     [\<lparr>img_id = ''1'', img_src = ''/gallery/image1.jpg'', img_title = ''codeforces''\<rparr>,
      \<lparr>img_id = ''2'', img_src = ''/gallery/image2.jpg'', img_title = ''kep.uz''\<rparr>,
      \<lparr>img_id = ''3'', img_src = ''/gallery/image3.jpg'', img_title = ''acmp.ru''\<rparr>,
      \<lparr>img_id = ''4'', img_src = ''/gallery/image4.jpg'', img_title = ''linux''\<rparr>,
      \<lparr>img_id = ''5'', img_src = ''/gallery/image5.jpg'', img_title = ''olympiad 1''\<rparr>]"

definition upHand :: handData where
  "upHand = sampleHandData 0.5 0.5 False True False"

definition downHand :: handData where
  "downHand = sampleHandData 0.5 0.5 False False True"

definition idleHand :: handData where
  "idleHand = sampleHandData 0.5 0.5 False False False"

definition draggingGallery :: gallery where
  "draggingGallery = initialGallery\<lparr>draggedImage := Some sampleImage\<rparr>"

section \<open>Pinch detection\<close>

lemma tipDistance_nonneg: "0 \<le> tipDistance lms"
  by (simp add: tipDistance_def)

lemma tipDistance_coincide: "lms ! 4 = lms ! 8 \<Longrightarrow> tipDistance lms = 0"
  by (simp add: tipDistance_def)

lemma strength_is_clamp:
  assumes "0 \<le> d"
  shows "max 0 (1 - d / PINCH_THRESHOLD) = clamp (1 - d / PINCH_THRESHOLD) 0 1"
proof -
  have "0 \<le> d / PINCH_THRESHOLD"
    using assms by (simp add: PINCH_THRESHOLD_def)
  then have "1 - d / PINCH_THRESHOLD \<le> 1" by simp
  then show ?thesis by (simp add: clamp_def)
qed

lemma strength_zero_beyond:
  assumes "PINCH_THRESHOLD \<le> d"
  shows "clamp (1 - d / PINCH_THRESHOLD) 0 1 = 0"
proof -
  have "1 \<le> d / PINCH_THRESHOLD"
    using assms by (simp add: PINCH_THRESHOLD_def)
  then show ?thesis by (simp add: clamp_def)
qed

lemma calculatePinch_eq:
  assumes "8 < length lms"
  shows "calculatePinch lms =
           Inr \<lparr>p_isPinching = (tipDistance lms < PINCH_THRESHOLD),
                p_position = \<lparr>px = (lm_x (lms ! 4) + lm_x (lms ! 8)) / 2,
                                py = (lm_y (lms ! 4) + lm_y (lms ! 8)) / 2\<rparr>,
                p_strength = clamp (1 - tipDistance lms / PINCH_THRESHOLD) 0 1\<rparr>"
proof -
  have "max 0 (1 - tipDistance lms / PINCH_THRESHOLD) =
          clamp (1 - tipDistance lms / PINCH_THRESHOLD) 0 1"
    by (rule strength_is_clamp [OF tipDistance_nonneg])
  then show ?thesis
    using assms by (simp add: calculatePinch_def Let_def tipDistance_def)
qed

text \<open>
  C1. For a hand of 21 landmarks \<open>calculatePinch\<close> returns: \<open>isPinching\<close> exactly when
  the Euclidean \<open>(x, y, z)\<close> distance between landmark 4 and landmark 8 is below 0.08;
  \<open>strength\<close> equal to \<open>clamp(1 - distance/0.08, 0, 1)\<close>; \<open>position\<close> the \<open>(x, y)\<close>
  midpoint of the two tips. When the two tips coincide the hand is pinching with strength
  1; when the distance is 0.08 or more it is not pinching and the strength is 0.
\<close>

theorem C1_calculatePinch:
  assumes "length lms = 21"
  shows "\<exists>p. calculatePinch lms = Inr p
           \<and> p_isPinching p = (tipDistance lms < 0.08)
           \<and> p_strength p = clamp (1 - tipDistance lms / 0.08) 0 1
           \<and> p_position p = \<lparr>px = (lm_x (lms ! 4) + lm_x (lms ! 8)) / 2,
                               py = (lm_y (lms ! 4) + lm_y (lms ! 8)) / 2\<rparr>
           \<and> (lms ! 4 = lms ! 8 \<longrightarrow> p_isPinching p \<and> p_strength p = 1)
           \<and> (tipDistance lms \<ge> 0.08 \<longrightarrow> \<not> p_isPinching p \<and> p_strength p = 0)"
proof -
  let ?p = "\<lparr>p_isPinching = (tipDistance lms < PINCH_THRESHOLD),
             p_position = \<lparr>px = (lm_x (lms ! 4) + lm_x (lms ! 8)) / 2,
                             py = (lm_y (lms ! 4) + lm_y (lms ! 8)) / 2\<rparr>,
             p_strength = clamp (1 - tipDistance lms / PINCH_THRESHOLD) 0 1\<rparr>"
  have eq: "calculatePinch lms = Inr ?p"
    using assms by (intro calculatePinch_eq) simp
  have coincide: "lms ! 4 = lms ! 8 \<longrightarrow> p_isPinching ?p \<and> p_strength ?p = 1"
    by (simp add: tipDistance_coincide clamp_def PINCH_THRESHOLD_def)
  have far: "tipDistance lms \<ge> PINCH_THRESHOLD \<longrightarrow> \<not> p_isPinching ?p \<and> p_strength ?p = 0"
    using strength_zero_beyond [of "tipDistance lms"] by simp
  show ?thesis
    using eq coincide far
    by (intro exI [of _ ?p]) (simp add: PINCH_THRESHOLD_def)
qed

lemma sampleHand_length: "length (sampleHand f) = 21"
  by (simp add: sampleHand_def)

lemma sampleHand_nth: "i < 21 \<Longrightarrow> sampleHand f ! i = f i"
  by (simp add: sampleHand_def)

theorem C1_calculatePinch_witness:
  "length closedHand = 21
   \<and> closedHand ! 4 = closedHand ! 8
   \<and> calculatePinch closedHand =
       Inr \<lparr>p_isPinching = True, p_position = \<lparr>px = 0, py = 0\<rparr>, p_strength = 1\<rparr>
   \<and> length farHand = 21
   \<and> tipDistance farHand \<ge> 0.08
   \<and> calculatePinch farHand =
       Inr \<lparr>p_isPinching = False, p_position = \<lparr>px = 1 / 2, py = 0\<rparr>, p_strength = 0\<rparr>"
proof -
  have far: "tipDistance farHand = 1"
    by (simp add: tipDistance_def farHand_def sampleHand_nth atOrigin_def)
  show ?thesis
    using C1_calculatePinch [of closedHand] C1_calculatePinch [of farHand] far
    by (auto simp: sampleHand_length sampleHand_nth atOrigin_def farHand_def closedHand_def)
qed

section \<open>Thumb gestures\<close>

text \<open>
  C2. For a hand of 21 landmarks \<open>detectThumbGesture\<close> returns \<open>isThumbsUp\<close> exactly when
  the four non-thumb tips are below their PIP joints (\<open>tip.y > PIP.y\<close>), the thumb is
  extended (\<open>|thumbTip.x - wrist.x| > 0.05\<close> or \<open>|thumbTip.y - wrist.y| > 0.1\<close>) and
  \<open>thumbCMC.y - thumbTip.y > 0.06\<close>; \<open>isThumbsDown\<close> is the same with
  \<open>thumbCMC.y - thumbTip.y < -0.06\<close>. The two are never both true, and when
  \<open>|thumbCMC.y - thumbTip.y| \<le> 0.06\<close> neither is true.
\<close>

theorem C2_detectThumbGesture:
  assumes "length lms = 21"
  shows "\<exists>g. detectThumbGesture lms = Inr g
     \<and> g_isThumbsUp g =
         ((lm_y (lms ! 8) > lm_y (lms ! 6) \<and> lm_y (lms ! 12) > lm_y (lms ! 10) \<and>
           lm_y (lms ! 16) > lm_y (lms ! 14) \<and> lm_y (lms ! 20) > lm_y (lms ! 18)) \<and>
          (\<bar>lm_x (lms ! 4) - lm_x (lms ! 0)\<bar> > 0.05 \<or> \<bar>lm_y (lms ! 4) - lm_y (lms ! 0)\<bar> > 0.1) \<and>
          lm_y (lms ! 1) - lm_y (lms ! 4) > 0.06)
     \<and> g_isThumbsDown g =
         ((lm_y (lms ! 8) > lm_y (lms ! 6) \<and> lm_y (lms ! 12) > lm_y (lms ! 10) \<and>
           lm_y (lms ! 16) > lm_y (lms ! 14) \<and> lm_y (lms ! 20) > lm_y (lms ! 18)) \<and>
          (\<bar>lm_x (lms ! 4) - lm_x (lms ! 0)\<bar> > 0.05 \<or> \<bar>lm_y (lms ! 4) - lm_y (lms ! 0)\<bar> > 0.1) \<and>
          lm_y (lms ! 1) - lm_y (lms ! 4) < - 0.06)
     \<and> \<not> (g_isThumbsUp g \<and> g_isThumbsDown g)
     \<and> (\<bar>lm_y (lms ! 1) - lm_y (lms ! 4)\<bar> \<le> 0.06 \<longrightarrow> \<not> g_isThumbsUp g \<and> \<not> g_isThumbsDown g)"
  using assms
  by (auto simp: detectThumbGesture_def fingersCurled_def Let_def THUMB_GESTURE_THRESHOLD_def)

theorem C2_detectThumbGesture_witness:
  "length (fistHand 0.6) = 21
   \<and> detectThumbGesture (fistHand 0.6) = Inr \<lparr>g_isThumbsUp = True, g_isThumbsDown = False\<rparr>
   \<and> length (fistHand 0.8) = 21
   \<and> detectThumbGesture (fistHand 0.8) = Inr \<lparr>g_isThumbsUp = False, g_isThumbsDown = True\<rparr>
   \<and> length (fistHand 0.68) = 21
   \<and> \<bar>lm_y (fistHand 0.68 ! 1) - lm_y (fistHand 0.68 ! 4)\<bar> \<le> 0.06
   \<and> detectThumbGesture (fistHand 0.68) = Inr \<lparr>g_isThumbsUp = False, g_isThumbsDown = False\<rparr>"
  using C2_detectThumbGesture [of "fistHand 0.6"] C2_detectThumbGesture [of "fistHand 0.8"]
    C2_detectThumbGesture [of "fistHand 0.68"]
  by (auto simp: fistHand_def sampleHand_length sampleHand_nth)

section \<open>Frame assembler: throttle and handedness\<close>

lemma fingersCurled_total: "length lms = 21 \<Longrightarrow> \<exists>b. fingersCurled lms = Inr b"
  by (auto simp: fingersCurled_def)

lemma detectThumbGesture_total: "length lms = 21 \<Longrightarrow> \<exists>g. detectThumbGesture lms = Inr g"
  using fingersCurled_total [of lms] by (auto simp: detectThumbGesture_def Let_def)

lemma every_extended_total:
  "\<forall>(a, b) \<in> set ps. a < length lms \<and> b < length lms \<Longrightarrow> \<exists>b. every_extended lms ps = Inr b"
  by (induction ps) auto

lemma detectOpenPalm_total: "length lms = 21 \<Longrightarrow> \<exists>b. detectOpenPalm lms = Inr b"
  using every_extended_total [of "[(8, 6), (12, 10), (16, 14), (20, 18)]" lms]
  by (auto simp: detectOpenPalm_def Let_def)

lemma calculatePinch_total: "length lms = 21 \<Longrightarrow> \<exists>p. calculatePinch lms = Inr p"
  by (simp add: calculatePinch_def Let_def)

lemma buildHandData_total:
  assumes "length lms = 21"
  shows "\<exists>h. buildHandData lms c = Inr h \<and> handedness h = actualHandedness c \<and> landmarks h = lms"
proof -
  obtain p where "calculatePinch lms = Inr p" using calculatePinch_total [OF assms] by blast
  moreover obtain g where "detectThumbGesture lms = Inr g"
    using detectThumbGesture_total [OF assms] by blast
  moreover obtain b where "detectOpenPalm lms = Inr b"
    using detectOpenPalm_total [OF assms] by blast
  ultimately show ?thesis by (simp add: buildHandData_def)
qed

lemma lastHand_Nil: "lastHand [] = None"
  by (simp add: lastHand_def)

lemma lastHand_snoc:
  "lastHand (ds @ [(lms, c)]) = (case buildHandData lms c of Inl e \<Rightarrow> None | Inr h \<Rightarrow> Some h)"
  by (simp add: lastHand_def)

lemma lastHand_single:
  "lastHand [(lms, c)] = (case buildHandData lms c of Inl e \<Rightarrow> None | Inr h \<Rightarrow> Some h)"
  by (simp add: lastHand_def)

lemma lastHand_Cons: "ds \<noteq> [] \<Longrightarrow> lastHand (d # ds) = lastHand ds"
  by (cases ds rule: rev_cases) (auto simp: lastHand_def)

lemma lastHand_Some:
  assumes "ds \<noteq> []" and "\<forall>d \<in> set ds. length (fst d) = 21"
  shows "\<exists>h. lastHand ds = Some h"
proof -
  obtain ds' lms c where ds: "ds = ds' @ [(lms, c)]"
    using assms(1) by (cases ds rule: rev_cases) auto
  then have "length lms = 21" using assms(2) by simp
  then obtain h where "buildHandData lms c = Inr h" using buildHandData_total by blast
  then show ?thesis by (simp add: ds lastHand_snoc)
qed

lemma orElse_lastHand_Cons:
  assumes "buildHandData lms c = Inr h" and "\<forall>d \<in> set ds. length (fst d) = 21"
  shows "orElse (lastHand ((lms, c) # ds)) a = orElse (lastHand ds) (Some h)"
proof (cases "ds = []")
  case True
  then show ?thesis using assms(1) by (simp add: lastHand_single lastHand_Nil orElse_def)
next
  case False
  then obtain h' where "lastHand ds = Some h'" using lastHand_Some [OF False assms(2)] by blast
  then show ?thesis using False by (simp add: lastHand_Cons orElse_def)
qed

lemma assignHands_wellFormed:
  assumes "list_all (\<lambda>lms. length lms = 21) lmss" and "length lmss \<le> length cs"
  shows "assignHands lmss cs (l, r) =
           Inr (orElse (lastHand (filter (\<lambda>(lms, c). label c \<noteq> ''Left'') (zip lmss cs))) l,
                orElse (lastHand (filter (\<lambda>(lms, c). label c = ''Left'') (zip lmss cs))) r)"
  using assms
proof (induction lmss arbitrary: cs l r)
  case Nil
  then show ?case by (simp add: lastHand_Nil orElse_def)
next
  case (Cons lms rest)
  then obtain c cs' where cs: "cs = c # cs'" by (cases cs) auto
  from Cons.prems have len: "length lms = 21" and rest: "list_all (\<lambda>lms. length lms = 21) rest"
    and le: "length rest \<le> length cs'" by (auto simp: cs)
  obtain h where h: "buildHandData lms c = Inr h" using buildHandData_total [OF len] by blast
  have single: "lastHand [(lms, c)] = Some h" using h by (simp add: lastHand_single)
  have wf: "\<forall>d \<in> set (filter P (zip rest cs')). length (fst d) = 21" for P
    using rest by (auto simp: list_all_iff dest: set_zip_leftD)
  note step = orElse_lastHand_Cons [OF h wf]
  show ?case
  proof (cases "label c = ''Left''")
    case True
    then show ?thesis
      using Cons.IH [OF rest le] h
      by (simp add: cs actualHandedness_def step)
  next
    case False
    then show ?thesis
      using Cons.IH [OF rest le] h
      by (simp add: cs actualHandedness_def step)
  qed
qed

lemma processResults_published:
  assumes "wellFormed res" and "\<not> now - lastProcessTime t < 16"
  shows "processResults now res t =
           (t\<lparr>lastProcessTime := now,
              leftHand := lastHand (filter (\<lambda>(lms, c). label c \<noteq> ''Left'') (detections res)),
              rightHand := lastHand (filter (\<lambda>(lms, c). label c = ''Left'') (detections res))\<rparr>,
            Published)"
proof (cases "multiHandLandmarks res")
  case None
  then show ?thesis using assms(2) by (simp add: processResults_def detections_def lastHand_Nil)
next
  case (Some lmss)
  show ?thesis
  proof (cases "multiHandedness res")
    case None
    then show ?thesis
      using assms(2) Some by (simp add: processResults_def detections_def lastHand_Nil)
  next
    case (Some cs)
    from assms(1) \<open>multiHandLandmarks res = Some lmss\<close> Some
    have wf: "list_all (\<lambda>lms. length lms = 21) lmss" "length lmss \<le> length cs"
      by (simp_all add: wellFormed_def)
    show ?thesis
      using assms(2) \<open>multiHandLandmarks res = Some lmss\<close> Some
        assignHands_wellFormed [OF wf, of None None]
      by (simp add: processResults_def detections_def orElse_def split: option.splits)
  qed
qed




lemma wellFormed_bothHands: "wellFormed bothHands"
  by (simp add: wellFormed_def bothHands_def fistHand_def closedHand_def sampleHand_length)

lemma wellFormed_twoLeftLabels: "wellFormed twoLeftLabels"
  by (simp add: wellFormed_def twoLeftLabels_def fistHand_def sampleHand_length)


lemma buildHandData_fields:
  "buildHandData lms c = Inr h \<Longrightarrow> handedness h = actualHandedness c \<and> landmarks h = lms"
  by (auto simp: buildHandData_def split: sum.splits)

lemma lastHand_origin:
  assumes "lastHand ds = Some h"
  shows "\<exists>lms c. (lms, c) \<in> set ds \<and> buildHandData lms c = Inr h"
proof (cases ds rule: rev_cases)
  case Nil
  then show ?thesis using assms by (simp add: lastHand_Nil)
next
  case (snoc ds' d)
  obtain lms c where d: "d = (lms, c)" by (cases d)
  then have "buildHandData lms c = Inr h"
    using assms snoc by (simp add: lastHand_snoc split: sum.splits)
  then show ?thesis using snoc d by auto
qed

text \<open>
  C9. For a processed, well-formed callback: \<open>rightHand\<close> is the hand built from the last
  detection whose source label is \<open>Left\<close>, \<open>leftHand\<close> the hand built from the last
  detection with any other label (later detections overwrite earlier ones); a side is
  null exactly when no detection maps to it; the hand on the right side has handedness
  \<open>Right\<close> and the hand on the left side has handedness \<open>Left\<close>.
\<close>

theorem C9_handedness:
  assumes "wellFormed res" and "now - lastProcessTime t \<ge> 16"
  shows "snd (processResults now res t) = Published
     \<and> rightHand (fst (processResults now res t)) =
         lastHand (filter (\<lambda>(lms, c). label c = ''Left'') (detections res))
     \<and> leftHand (fst (processResults now res t)) =
         lastHand (filter (\<lambda>(lms, c). label c \<noteq> ''Left'') (detections res))
     \<and> (rightHand (fst (processResults now res t)) = None
          \<longleftrightarrow> filter (\<lambda>(lms, c). label c = ''Left'') (detections res) = [])
     \<and> (leftHand (fst (processResults now res t)) = None
          \<longleftrightarrow> filter (\<lambda>(lms, c). label c \<noteq> ''Left'') (detections res) = [])
     \<and> (\<forall>h. rightHand (fst (processResults now res t)) = Some h \<longrightarrow> handedness h = Right)
     \<and> (\<forall>h. leftHand (fst (processResults now res t)) = Some h \<longrightarrow> handedness h = Left)"
proof -
  let ?R = "filter (\<lambda>(lms, c). label c = ''Left'') (detections res)"
  let ?L = "filter (\<lambda>(lms, c). label c \<noteq> ''Left'') (detections res)"
  have pub: "processResults now res t =
      (t\<lparr>lastProcessTime := now, leftHand := lastHand ?L, rightHand := lastHand ?R\<rparr>, Published)"
    using assms by (intro processResults_published) simp_all
  have wf: "\<forall>d \<in> set (detections res). length (fst d) = 21"
    using assms(1)
    by (auto simp: wellFormed_def detections_def list_all_iff split: option.splits
             dest: set_zip_leftD)
  have none: "lastHand (filter P (detections res)) = None \<longleftrightarrow> filter P (detections res) = []" for P
  proof (cases "filter P (detections res) = []")
    case True
    then show ?thesis by (simp add: lastHand_Nil)
  next
    case False
    then show ?thesis using lastHand_Some [OF False] wf by auto
  qed
  have right: "handedness h = Right" if h: "lastHand ?R = Some h" for h
  proof -
    obtain lms c where "(lms, c) \<in> set ?R" "buildHandData lms c = Inr h"
      using lastHand_origin [OF h] by blast
    then show ?thesis using buildHandData_fields [of lms c h] by (simp add: actualHandedness_def)
  qed
  have left: "handedness h = Left" if h: "lastHand ?L = Some h" for h
  proof -
    obtain lms c where "(lms, c) \<in> set ?L" "buildHandData lms c = Inr h"
      using lastHand_origin [OF h] by blast
    then show ?thesis using buildHandData_fields [of lms c h] by (simp add: actualHandedness_def)
  qed
  show ?thesis
    unfolding pub using none [of "\<lambda>(lms, c). label c = ''Left''"]
      none [of "\<lambda>(lms, c). label c \<noteq> ''Left''"] right left
    by simp
qed

theorem C9_handedness_witness:
  "wellFormed twoLeftLabels \<and> 100 - lastProcessTime initialTracker \<ge> 16
   \<and> snd (processResults 100 twoLeftLabels initialTracker) = Published
   \<and> map_option landmarks (rightHand (fst (processResults 100 twoLeftLabels initialTracker)))
       = Some (fistHand 0.8)
   \<and> map_option handedness (rightHand (fst (processResults 100 twoLeftLabels initialTracker)))
       = Some Right
   \<and> leftHand (fst (processResults 100 twoLeftLabels initialTracker)) = None
   \<and> wellFormed bothHands
   \<and> map_option landmarks (rightHand (fst (processResults 100 bothHands initialTracker)))
       = Some (fistHand 0.6)
   \<and> map_option landmarks (leftHand (fst (processResults 100 bothHands initialTracker)))
       = Some closedHand"
proof -
  have t0: "100 - lastProcessTime initialTracker \<ge> 16"
    by (simp add: initialTracker_def)
  have one: "map_option landmarks (lastHand [(lms, c)]) = Some lms" if "length lms = 21" for lms c
    using buildHandData_total [OF that, of c] by (auto simp: lastHand_single)
  have len: "length (fistHand y) = 21" "length closedHand = 21" for y
    by (simp_all add: fistHand_def closedHand_def sampleHand_length)
  have two: "map_option landmarks
               (lastHand (filter (\<lambda>(lms, c). label c = ''Left'') (detections twoLeftLabels)))
             = Some (fistHand 0.8)"
    by (simp add: twoLeftLabels_def detections_def lastHand_Cons one len)
  have twoL: "filter (\<lambda>(lms, c). label c \<noteq> ''Left'') (detections twoLeftLabels) = []"
    by (simp add: twoLeftLabels_def detections_def)
  have bothR: "map_option landmarks
               (lastHand (filter (\<lambda>(lms, c). label c = ''Left'') (detections bothHands)))
             = Some (fistHand 0.6)"
    by (simp add: bothHands_def detections_def one len)
  have bothL: "map_option landmarks
               (lastHand (filter (\<lambda>(lms, c). label c \<noteq> ''Left'') (detections bothHands)))
             = Some closedHand"
    by (simp add: bothHands_def detections_def one len)
  show ?thesis
    using C9_handedness [OF wellFormed_twoLeftLabels t0]
      C9_handedness [OF wellFormed_bothHands t0]
      wellFormed_bothHands wellFormed_twoLeftLabels t0 two twoL bothR bothL
    by (auto simp: lastHand_Nil)
qed

section \<open>Viewer: zoom/pan and move/dismiss\<close>

lemma zoomPan_idle:
  "image' = None \<or> leftHand' = None \<or> isDraggingWithRight v \<Longrightarrow> zoomPan w image' leftHand' v = v"
  by (auto simp: zoomPan_def split: option.splits)

lemma zoomPan_released:
  "\<not> isDraggingWithRight v \<Longrightarrow> \<not> isPinching h \<Longrightarrow>
     zoomPan w (Some img) (Some h) v = v\<lparr>isPinchingRef := False\<rparr>"
  by (simp add: zoomPan_def Let_def)

lemma zoomPan_capture:
  "\<not> isDraggingWithRight v \<Longrightarrow> isPinching h \<Longrightarrow> \<not> isPinchingRef v \<Longrightarrow>
     zoomPan w (Some img) (Some h) v =
       v\<lparr>lastPinchY := pixelY w h, lastPinchX := pixelX w h, isPinchingRef := True\<rparr>"
  by (simp add: zoomPan_def Let_def pixelX_def pixelY_def)

lemma zoomPan_update:
  assumes "\<not> isDraggingWithRight v" and "isPinching h" and "isPinchingRef v"
  shows "zoomPan w (Some img) (Some h) v =
     v\<lparr>zoom := (if \<bar>pixelY w h - lastPinchY v\<bar> > 0.5 * \<bar>pixelX w h - lastPinchX v\<bar>
                then clamp (zoom v - (pixelY w h - lastPinchY v) * 0.008) 0.5 4 else zoom v),
       pan := \<lparr>px = (if \<bar>pixelX w h - lastPinchX v\<bar> > 5
                       then clamp (px (pan v) + (pixelX w h - lastPinchX v) * 0.5) (- 300) 300
                       else px (pan v)),
               py = py (pan v)\<rparr>,
       lastPinchY := pixelY w h, lastPinchX := pixelX w h\<rparr>"
proof -
  have z: "zoom v + - (pixelY w h - lastPinchY v) * 0.008
             = zoom v - (pixelY w h - lastPinchY v) * 0.008"
    by (simp only: mult_minus_left add_uminus_conv_diff)
  have half: "\<bar>pixelX w h - lastPinchX v\<bar> * 0.5 = 0.5 * \<bar>pixelX w h - lastPinchX v\<bar>"
    by simp
  have unfolded: "zoomPan w (Some img) (Some h) v =
      (let deltaY = pixelY w h - lastPinchY v;
           deltaX = pixelX w h - lastPinchX v;
           v1 = (if \<bar>deltaY\<bar> > \<bar>deltaX\<bar> * 0.5
                 then v\<lparr>zoom := max 0.5 (min 4 (zoom v + (- deltaY * 0.008)))\<rparr>
                 else v);
           v2 = (if \<bar>deltaX\<bar> > 5
                 then v1\<lparr>pan := \<lparr>px = max (- 300) (min 300 (px (pan v1) + deltaX * 0.5)),
                                 py = py (pan v1)\<rparr>\<rparr>
                 else v1)
       in v2\<lparr>lastPinchY := pixelY w h, lastPinchX := pixelX w h\<rparr>)"
    using assms unfolding zoomPan_def pixelX_def pixelY_def by (simp add: Let_def)
  show ?thesis
    unfolding unfolded Let_def clamp_def z half by simp
qed


text \<open>
  C7, amended. A tick with no image, a null left hand or a right-hand drag changes
  nothing, the latch \<open>isPinching\<close> included. Otherwise: a tick whose hand is not
  pinching only clears the latch; a pinching tick with the latch clear captures the
  current position, sets the latch and changes neither zoom nor pan; a pinching tick with
  the latch set, with \<open>\<Delta> = current - last captured\<close> position, sets the zoom to
  \<open>clamp(zoom - \<Delta>y 0.008, 0.5, 4)\<close> if \<open>|\<Delta>y| > 0.5 |\<Delta>x|\<close> and, independently,
  \<open>pan.x\<close> to \<open>clamp(pan.x + \<Delta>x 0.5, -300, 300)\<close> if \<open>|\<Delta>x| > 5\<close>, both possibly
  in the same tick, and captures the position. So the pinching tick after a tick with a
  present, non-pinching hand is a rising edge that only captures, while a pinching tick
  after a null hand behaves as if the null tick had not been.
\<close>

theorem C7_zoomPan_latch:
  "(image' = None \<or> leftHand' = None \<or> isDraggingWithRight v \<longrightarrow>
      zoomPan w image' leftHand' v = v)
   \<and> (\<not> isDraggingWithRight v \<and> \<not> isPinching h \<longrightarrow>
        zoomPan w (Some img) (Some h) v = v\<lparr>isPinchingRef := False\<rparr>)
   \<and> (\<not> isDraggingWithRight v \<and> isPinching h \<and> \<not> isPinchingRef v \<longrightarrow>
        zoomPan w (Some img) (Some h) v =
          v\<lparr>lastPinchY := pixelY w h, lastPinchX := pixelX w h, isPinchingRef := True\<rparr>)
   \<and> (\<not> isDraggingWithRight v \<and> isPinching h \<and> isPinchingRef v \<longrightarrow>
        zoomPan w (Some img) (Some h) v =
          v\<lparr>zoom := (if \<bar>pixelY w h - lastPinchY v\<bar> > 0.5 * \<bar>pixelX w h - lastPinchX v\<bar>
                     then clamp (zoom v - (pixelY w h - lastPinchY v) * 0.008) 0.5 4
                     else zoom v),
            pan := \<lparr>px = (if \<bar>pixelX w h - lastPinchX v\<bar> > 5
                            then clamp (px (pan v) + (pixelX w h - lastPinchX v) * 0.5) (- 300) 300
                            else px (pan v)),
                    py = py (pan v)\<rparr>,
            lastPinchY := pixelY w h, lastPinchX := pixelX w h\<rparr>)
   \<and> (\<not> isDraggingWithRight v \<and> \<not> isPinching hn \<and> isPinching h \<longrightarrow>
        zoomPan w (Some img) (Some h) (zoomPan w (Some img) (Some hn) v) =
          v\<lparr>lastPinchY := pixelY w h, lastPinchX := pixelX w h, isPinchingRef := True\<rparr>)
   \<and> zoomPan w (Some img) (Some h) (zoomPan w (Some img) None v) =
        zoomPan w (Some img) (Some h) v"
proof -
  have idle: "image' = None \<or> leftHand' = None \<or> isDraggingWithRight v \<longrightarrow>
      zoomPan w image' leftHand' v = v"
    using zoomPan_idle [of image' leftHand' v w] by blast
  have released: "\<not> isDraggingWithRight v \<and> \<not> isPinching h \<longrightarrow>
        zoomPan w (Some img) (Some h) v = v\<lparr>isPinchingRef := False\<rparr>"
    using zoomPan_released [of v h w img] by blast
  have capture: "\<not> isDraggingWithRight v \<and> isPinching h \<and> \<not> isPinchingRef v \<longrightarrow>
        zoomPan w (Some img) (Some h) v =
          v\<lparr>lastPinchY := pixelY w h, lastPinchX := pixelX w h, isPinchingRef := True\<rparr>"
    using zoomPan_capture [of v h w img] by blast
  have update: "\<not> isDraggingWithRight v \<and> isPinching h \<and> isPinchingRef v \<longrightarrow>
        zoomPan w (Some img) (Some h) v =
          v\<lparr>zoom := (if \<bar>pixelY w h - lastPinchY v\<bar> > 0.5 * \<bar>pixelX w h - lastPinchX v\<bar>
                     then clamp (zoom v - (pixelY w h - lastPinchY v) * 0.008) 0.5 4
                     else zoom v),
            pan := \<lparr>px = (if \<bar>pixelX w h - lastPinchX v\<bar> > 5
                            then clamp (px (pan v) + (pixelX w h - lastPinchX v) * 0.5) (- 300) 300
                            else px (pan v)),
                    py = py (pan v)\<rparr>,
            lastPinchY := pixelY w h, lastPinchX := pixelX w h\<rparr>"
    using zoomPan_update [of v h w img] by blast
  have edge: "zoomPan w (Some img) (Some h) (zoomPan w (Some img) (Some hn) v) =
          v\<lparr>lastPinchY := pixelY w h, lastPinchX := pixelX w h, isPinchingRef := True\<rparr>"
    if "\<not> isDraggingWithRight v" "\<not> isPinching hn" "isPinching h"
  proof -
    have "zoomPan w (Some img) (Some hn) v = v\<lparr>isPinchingRef := False\<rparr>"
      using that by (intro zoomPan_released)
    moreover have "zoomPan w (Some img) (Some h) (v\<lparr>isPinchingRef := False\<rparr>) =
        v\<lparr>isPinchingRef := False\<rparr>
         \<lparr>lastPinchY := pixelY w h, lastPinchX := pixelX w h, isPinchingRef := True\<rparr>"
      using that by (intro zoomPan_capture) simp_all
    ultimately show ?thesis by simp
  qed
  have gap: "zoomPan w (Some img) (Some h) (zoomPan w (Some img) None v) =
        zoomPan w (Some img) (Some h) v"
    by (simp add: zoomPan_idle)
  show ?thesis
    using idle released capture update edge gap by blast
qed


theorem C7_zoomPan_latch_witness:
  "zoomPan sampleWindow (Some sampleImage) None latchedViewer = latchedViewer
   \<and> \<not> isDraggingWithRight latchedViewer
   \<and> \<not> isPinching (sampleHandData 0.5 0.5 False False False)
   \<and> zoomPan sampleWindow (Some sampleImage) (Some (sampleHandData 0.5 0.5 False False False))
         latchedViewer = latchedViewer\<lparr>isPinchingRef := False\<rparr>
   \<and> \<not> isDraggingWithRight initialViewer
   \<and> isPinching (sampleHandData 0.5 0.5 True False False)
   \<and> \<not> isPinchingRef initialViewer
   \<and> zoomPan sampleWindow (Some sampleImage) (Some (sampleHandData 0.5 0.5 True False False))
         initialViewer = latchedViewer
   \<and> isPinching (sampleHandData 0.49 0.52 True False False)
   \<and> isPinchingRef latchedViewer
   \<and> zoomPan sampleWindow (Some sampleImage) (Some (sampleHandData 0.49 0.52 True False False))
         latchedViewer
       = latchedViewer\<lparr>zoom := 0.84, pan := \<lparr>px = 5, py = 0\<rparr>,
                        lastPinchY := 520, lastPinchX := 510\<rparr>
   \<and> zoomPan sampleWindow (Some sampleImage) (Some (sampleHandData 0.49 0.52 True False False))
         (zoomPan sampleWindow (Some sampleImage)
            (Some (sampleHandData 0.5 0.5 False False False)) latchedViewer)
       = latchedViewer\<lparr>lastPinchY := 520, lastPinchX := 510\<rparr>"
  using C7_zoomPan_latch [where image' = "Some sampleImage" and leftHand' = None
      and v = latchedViewer and w = sampleWindow and img = sampleImage
      and h = "sampleHandData 0.5 0.5 False False False"
      and hn = "sampleHandData 0.5 0.5 False False False"]
    C7_zoomPan_latch [where image' = "Some sampleImage" and leftHand' = None
      and v = initialViewer and w = sampleWindow and img = sampleImage
      and h = "sampleHandData 0.5 0.5 True False False"
      and hn = "sampleHandData 0.5 0.5 False False False"]
    C7_zoomPan_latch [where image' = "Some sampleImage" and leftHand' = None
      and v = latchedViewer and w = sampleWindow and img = sampleImage
      and h = "sampleHandData 0.49 0.52 True False False"
      and hn = "sampleHandData 0.5 0.5 False False False"]
  by (simp add: latchedViewer_def initialViewer_def sampleHandData_def sampleWindow_def
        pixelX_def pixelY_def clamp_def)

text \<open>
  C7 as stated fails: the left hand pinches at \<open>(500, 500)\<close>, vanishes, and reappears
  pinching at \<open>(500, 400)\<close>. On that rising edge the latch is still set and the zoom
  goes from 1 to 1.8.
\<close>

theorem C7_reappearing_pinch_counterexample:
  "isPinching (sampleHandData 0.5 0.5 True False False)
   \<and> zoomPan sampleWindow (Some sampleImage) (Some (sampleHandData 0.5 0.5 True False False))
         initialViewer = latchedViewer
   \<and> zoomPan sampleWindow (Some sampleImage) None latchedViewer = latchedViewer
   \<and> isPinching (sampleHandData 0.5 0.4 True False False)
   \<and> zoom latchedViewer = 1
   \<and> zoom (zoomPan sampleWindow (Some sampleImage)
              (Some (sampleHandData 0.5 0.4 True False False)) latchedViewer) = 1.8"
  by (simp add: zoomPan_def latchedViewer_def initialViewer_def sampleHandData_def
        sampleWindow_def Let_def)

lemma moveDismiss_drag:
  assumes "rightPinchStart v = Some start" and "\<not> isDismissing v"
    and "isPinching hm" and "pixelX w hm < innerWidth w * 0.75"
  shows "moveDismiss w (Some img) (Some hm) v =
           (v\<lparr>pan := \<lparr>px = pixelX w hm - px start, py = pixelY w hm - py start\<rparr>,
              isInDismissZone := (pixelY w hm > innerHeight w * 0.85)\<rparr>, [])"
  using assms by (simp add: moveDismiss_def pixelX_def pixelY_def Let_def)

lemma moveDismiss_engage:
  assumes "rightPinchStart v = None" and "\<not> isDismissing v"
    and "isPinching he" and "pixelX w he < innerWidth w * 0.75"
  shows "moveDismiss w (Some img) (Some he) v =
           (v\<lparr>rightPinchStart := Some \<lparr>px = pixelX w he, py = pixelY w he\<rparr>,
              isDraggingWithRight := True\<rparr>, [])"
  using assms by (simp add: moveDismiss_def pixelX_def pixelY_def Let_def)

lemma moveDismiss_release:
  assumes "rightPinchStart v = Some start" and "\<not> isDismissing v" and "\<not> isPinching hr"
  shows "moveDismiss w (Some img) (Some hr) v =
           (if isInDismissZone v
            then (v\<lparr>isDismissing := True, rightPinchStart := None,
                    isDraggingWithRight := False, isInDismissZone := False\<rparr>, [400])
            else (v\<lparr>pan := \<lparr>px = 0, py = 0\<rparr>, rightPinchStart := None,
                    isDraggingWithRight := False, isInDismissZone := False\<rparr>, []))"
  using assms by (simp add: moveDismiss_def Let_def)

lemma moveDismiss_dismissing:
  "isDismissing v \<Longrightarrow> moveDismiss w i r v = (v, [])"
  by (simp add: moveDismiss_def split: option.splits)

text \<open>
  C6, amended. A drag is in progress and its last drag-update tick (hand \<open>hm\<close>,
  pinching in the main view) sets the dismiss flag to whether its position is below the
  85% line; then the pinch is released (hand \<open>hr\<close>, at any position). If that last
  drag position was below the line, the release sets exactly one timeout of 400 ms and
  enters Dismissing, where the effect does nothing more, and the timeout's callback
  emits exactly one close event and leaves Dismissing. If it was not, or if the pinch is
  released right after the tick that engaged it, the release sets no timeout, so no
  close event follows, and pan is reset to \<open>{0, 0}\<close>.
\<close>

theorem C6_dismiss_on_last_drag_tick:
  assumes "rightPinchStart v = Some start" and "\<not> isDismissing v"
    and "isPinching hm" and "pixelX w hm < innerWidth w * 0.75"
    and "\<not> isPinching hr"
    and "v1 = fst (moveDismiss w (Some img) (Some hm) v)"
    and "v2 = fst (moveDismiss w (Some img) (Some hr) v1)"
  shows "moveDismiss w (Some img) (Some hm) v =
           (v\<lparr>pan := \<lparr>px = pixelX w hm - px start, py = pixelY w hm - py start\<rparr>,
              isInDismissZone := (pixelY w hm > innerHeight w * 0.85)\<rparr>, [])
     \<and> (pixelY w hm > innerHeight w * 0.85 \<longrightarrow>
           moveDismiss w (Some img) (Some hr) v1 =
             (v1\<lparr>isDismissing := True, rightPinchStart := None,
                 isDraggingWithRight := False, isInDismissZone := False\<rparr>, [400])
         \<and> (\<forall>i r. moveDismiss w i r v2 = (v2, []))
         \<and> dismissTimeout v2 = (v2\<lparr>isDismissing := False, isInDismissZone := False\<rparr>, [OnClose]))
     \<and> (\<not> pixelY w hm > innerHeight w * 0.85 \<longrightarrow>
           moveDismiss w (Some img) (Some hr) v1 =
             (v1\<lparr>pan := \<lparr>px = 0, py = 0\<rparr>, rightPinchStart := None,
                 isDraggingWithRight := False, isInDismissZone := False\<rparr>, []))
     \<and> (rightPinchStart vi = None \<and> \<not> isDismissing vi \<and> \<not> isInDismissZone vi
          \<and> isPinching he \<and> pixelX w he < innerWidth w * 0.75 \<longrightarrow>
           moveDismiss w (Some img) (Some hr) (fst (moveDismiss w (Some img) (Some he) vi)) =
             (vi\<lparr>pan := \<lparr>px = 0, py = 0\<rparr>, rightPinchStart := None,
                 isDraggingWithRight := False, isInDismissZone := False\<rparr>, []))"
proof -
  note drag = moveDismiss_drag [OF assms(1-4), of img]
  then have v1: "v1 = v\<lparr>pan := \<lparr>px = pixelX w hm - px start, py = pixelY w hm - py start\<rparr>,
                   isInDismissZone := (pixelY w hm > innerHeight w * 0.85)\<rparr>"
    using assms(6) by simp
  have start1: "rightPinchStart v1 = Some start" and nd1: "\<not> isDismissing v1"
    and zone1: "isInDismissZone v1 = (pixelY w hm > innerHeight w * 0.85)"
    using assms(1,2) by (simp_all add: v1)
  note rel = moveDismiss_release [OF start1 nd1 assms(5), of w img]
  have inside: "moveDismiss w (Some img) (Some hr) v1 =
             (v1\<lparr>isDismissing := True, rightPinchStart := None,
                 isDraggingWithRight := False, isInDismissZone := False\<rparr>, [400])
         \<and> (\<forall>i r. moveDismiss w i r v2 = (v2, []))
         \<and> dismissTimeout v2 = (v2\<lparr>isDismissing := False, isInDismissZone := False\<rparr>, [OnClose])"
    if "pixelY w hm > innerHeight w * 0.85"
  proof -
    have "isInDismissZone v1" using that zone1 by simp
    then have r: "moveDismiss w (Some img) (Some hr) v1 =
        (v1\<lparr>isDismissing := True, rightPinchStart := None,
            isDraggingWithRight := False, isInDismissZone := False\<rparr>, [400])"
      using rel by simp
    then have d: "isDismissing v2" using assms(7) by simp
    show ?thesis
      using r moveDismiss_dismissing [OF d] by (simp add: dismissTimeout_def)
  qed
  have outside: "moveDismiss w (Some img) (Some hr) v1 =
             (v1\<lparr>pan := \<lparr>px = 0, py = 0\<rparr>, rightPinchStart := None,
                 isDraggingWithRight := False, isInDismissZone := False\<rparr>, [])"
    if "\<not> pixelY w hm > innerHeight w * 0.85"
  proof -
    have "\<not> isInDismissZone v1" using that zone1 by simp
    then show ?thesis using rel by simp
  qed
  have early: "moveDismiss w (Some img) (Some hr) (fst (moveDismiss w (Some img) (Some he) vi)) =
             (vi\<lparr>pan := \<lparr>px = 0, py = 0\<rparr>, rightPinchStart := None,
                 isDraggingWithRight := False, isInDismissZone := False\<rparr>, [])"
    if "rightPinchStart vi = None" "\<not> isDismissing vi" "\<not> isInDismissZone vi"
      "isPinching he" "pixelX w he < innerWidth w * 0.75"
  proof -
    let ?e = "vi\<lparr>rightPinchStart := Some \<lparr>px = pixelX w he, py = pixelY w he\<rparr>,
                  isDraggingWithRight := True\<rparr>"
    have e: "fst (moveDismiss w (Some img) (Some he) vi) = ?e"
      using moveDismiss_engage [OF that(1,2,4,5), of img] by simp
    have "moveDismiss w (Some img) (Some hr) ?e =
            (?e\<lparr>pan := \<lparr>px = 0, py = 0\<rparr>, rightPinchStart := None,
                isDraggingWithRight := False, isInDismissZone := False\<rparr>, [])"
      using moveDismiss_release [of ?e _ hr w img] that(2,3) assms(5) by simp
    then show ?thesis by (simp add: e)
  qed
  show ?thesis using drag inside outside early by blast
qed


lemma sampleHandData_pixels:
  "isPinching (sampleHandData a b p u d) = p"
  "pixelX sampleWindow (sampleHandData a b p u d) = (1 - a) * 1000"
  "pixelY sampleWindow (sampleHandData a b p u d) = b * 1000"
  "innerWidth sampleWindow = 1000" "innerHeight sampleWindow = 1000"
  by (simp_all add: sampleHandData_def pixelX_def pixelY_def sampleWindow_def)

theorem C6_dismiss_on_last_drag_tick_witness:
  "rightPinchStart engagedViewer = Some \<lparr>px = 500, py = 500\<rparr>
   \<and> \<not> isDismissing engagedViewer
   \<and> isPinching (sampleHandData 0.5 0.9 True False False)
   \<and> pixelX sampleWindow (sampleHandData 0.5 0.9 True False False) < innerWidth sampleWindow * 0.75
   \<and> \<not> isPinching (sampleHandData 0.5 0.2 False False False)
   \<and> pixelY sampleWindow (sampleHandData 0.5 0.9 True False False) > innerHeight sampleWindow * 0.85
   \<and> snd (moveDismiss sampleWindow (Some sampleImage) (Some (sampleHandData 0.5 0.2 False False False))
        (fst (moveDismiss sampleWindow (Some sampleImage)
               (Some (sampleHandData 0.5 0.9 True False False)) engagedViewer))) = [400]
   \<and> snd (dismissTimeout
        (fst (moveDismiss sampleWindow (Some sampleImage)
               (Some (sampleHandData 0.5 0.2 False False False))
               (fst (moveDismiss sampleWindow (Some sampleImage)
                      (Some (sampleHandData 0.5 0.9 True False False)) engagedViewer))))) = [OnClose]
   \<and> isPinching (sampleHandData 0.5 0.6 True False False)
   \<and> pixelX sampleWindow (sampleHandData 0.5 0.6 True False False) < innerWidth sampleWindow * 0.75
   \<and> \<not> pixelY sampleWindow (sampleHandData 0.5 0.6 True False False) > innerHeight sampleWindow * 0.85
   \<and> moveDismiss sampleWindow (Some sampleImage) (Some (sampleHandData 0.5 0.2 False False False))
        (fst (moveDismiss sampleWindow (Some sampleImage)
               (Some (sampleHandData 0.5 0.6 True False False)) engagedViewer))
       = (initialViewer, [])
   \<and> rightPinchStart initialViewer = None \<and> \<not> isDismissing initialViewer
   \<and> \<not> isInDismissZone initialViewer
   \<and> isPinching (sampleHandData 0.5 0.95 True False False)
   \<and> pixelX sampleWindow (sampleHandData 0.5 0.95 True False False) < innerWidth sampleWindow * 0.75
   \<and> moveDismiss sampleWindow (Some sampleImage) (Some (sampleHandData 0.5 0.2 False False False))
        (fst (moveDismiss sampleWindow (Some sampleImage)
               (Some (sampleHandData 0.5 0.95 True False False)) initialViewer))
       = (initialViewer, [])"
proof -
  have st: "rightPinchStart engagedViewer = Some \<lparr>px = 500, py = 500\<rparr>"
    and nd: "\<not> isDismissing engagedViewer"
    by (simp_all add: engagedViewer_def initialViewer_def)
  have pinch: "isPinching (sampleHandData a b True u d)"
    and open_hand: "\<not> isPinching (sampleHandData a b False u d)" for a b u d
    by (simp_all add: sampleHandData_pixels)
  have x: "pixelX sampleWindow (sampleHandData 0.5 b True False False)
             < innerWidth sampleWindow * 0.75" for b
    by (simp add: sampleHandData_pixels)
  define a where "a = fst (moveDismiss sampleWindow (Some sampleImage)
      (Some (sampleHandData 0.5 0.9 True False False)) engagedViewer)"
  define b where "b = fst (moveDismiss sampleWindow (Some sampleImage)
      (Some (sampleHandData 0.5 0.2 False False False)) a)"
  define c where "c = fst (moveDismiss sampleWindow (Some sampleImage)
      (Some (sampleHandData 0.5 0.6 True False False)) engagedViewer)"
  define d where "d = fst (moveDismiss sampleWindow (Some sampleImage)
      (Some (sampleHandData 0.5 0.2 False False False)) c)"
  note inside = C6_dismiss_on_last_drag_tick [where v = engagedViewer and w = sampleWindow
      and img = sampleImage and hm = "sampleHandData 0.5 0.9 True False False"
      and hr = "sampleHandData 0.5 0.2 False False False"
      and vi = initialViewer and he = "sampleHandData 0.5 0.95 True False False",
      OF st nd pinch x open_hand a_def b_def]
  note outside = C6_dismiss_on_last_drag_tick [where v = engagedViewer and w = sampleWindow
      and img = sampleImage and hm = "sampleHandData 0.5 0.6 True False False"
      and hr = "sampleHandData 0.5 0.2 False False False"
      and vi = initialViewer and he = "sampleHandData 0.5 0.95 True False False",
      OF st nd pinch x open_hand c_def d_def]
  have zone: "pixelY sampleWindow (sampleHandData 0.5 0.9 True False False)
                > innerHeight sampleWindow * 0.85"
    and nozone: "\<not> pixelY sampleWindow (sampleHandData 0.5 0.6 True False False)
                > innerHeight sampleWindow * 0.85"
    by (simp_all add: sampleHandData_pixels)
  have idle: "rightPinchStart initialViewer = None" "\<not> isDismissing initialViewer"
    "\<not> isInDismissZone initialViewer"
    by (simp_all add: initialViewer_def)
  have r1: "snd (moveDismiss sampleWindow (Some sampleImage)
                  (Some (sampleHandData 0.5 0.2 False False False)) a) = [400]"
    and t1: "snd (dismissTimeout b) = [OnClose]"
    using inside zone by simp_all
  have c: "c = engagedViewer\<lparr>pan := \<lparr>px = 0, py = 100\<rparr>, isInDismissZone := False\<rparr>"
    using outside unfolding c_def by (simp add: sampleHandData_pixels engagedViewer_def)
  have r2: "moveDismiss sampleWindow (Some sampleImage)
              (Some (sampleHandData 0.5 0.2 False False False)) c = (initialViewer, [])"
    using outside nozone by (simp add: c engagedViewer_def initialViewer_def)
  have r3: "moveDismiss sampleWindow (Some sampleImage)
              (Some (sampleHandData 0.5 0.2 False False False))
              (fst (moveDismiss sampleWindow (Some sampleImage)
                     (Some (sampleHandData 0.5 0.95 True False False)) initialViewer))
            = (initialViewer, [])"
    using inside idle pinch x by (simp add: initialViewer_def)
  show ?thesis
    using st nd pinch open_hand x zone nozone idle r1 t1 r2 r3
    unfolding a_def b_def c_def by simp
qed

text \<open>
  C6 as stated fails twice. A pinch engaged at \<open>y = 950\<close> of 1000 and released there
  on the next tick is not dismissed, although its last known position is in the dismiss
  zone. A drag whose last update was at \<open>y = 900\<close> and which is released at
  \<open>y = 200\<close>, outside the zone, is dismissed and a close event follows.
\<close>

theorem C6_release_position_counterexample:
  "isPinching (sampleHandData 0.5 0.95 True False False)
   \<and> \<not> isPinching (sampleHandData 0.5 0.95 False False False)
   \<and> pixelY sampleWindow (sampleHandData 0.5 0.95 False False False)
        > innerHeight sampleWindow * 0.85
   \<and> moveDismiss sampleWindow (Some sampleImage)
        (Some (sampleHandData 0.5 0.95 False False False))
        (fst (moveDismiss sampleWindow (Some sampleImage)
               (Some (sampleHandData 0.5 0.95 True False False)) initialViewer))
       = (initialViewer, [])
   \<and> isPinching (sampleHandData 0.5 0.9 True False False)
   \<and> \<not> isPinching (sampleHandData 0.5 0.2 False False False)
   \<and> \<not> pixelY sampleWindow (sampleHandData 0.5 0.2 False False False)
        > innerHeight sampleWindow * 0.85
   \<and> snd (moveDismiss sampleWindow (Some sampleImage)
        (Some (sampleHandData 0.5 0.2 False False False))
        (fst (moveDismiss sampleWindow (Some sampleImage)
               (Some (sampleHandData 0.5 0.9 True False False)) engagedViewer))) = [400]
   \<and> snd (dismissTimeout
        (fst (moveDismiss sampleWindow (Some sampleImage)
               (Some (sampleHandData 0.5 0.2 False False False))
               (fst (moveDismiss sampleWindow (Some sampleImage)
                      (Some (sampleHandData 0.5 0.9 True False False)) engagedViewer)))))
       = [OnClose]"
  by (simp add: moveDismiss_def dismissTimeout_def engagedViewer_def initialViewer_def
        sampleHandData_def sampleWindow_def pixelX_def pixelY_def Let_def)

section \<open>Gallery: discrete navigation and drag release\<close>

lemma findIndex_distinct:
  assumes "distinct (map f xs)" and "i < length xs"
  shows "findIndex (\<lambda>x. f x = f (xs ! i)) xs = int i"
  using assms
proof (induction xs arbitrary: i)
  case Nil
  then show ?case by simp
next
  case (Cons a as)
  show ?case
  proof (cases i)
    case 0
    then show ?thesis by simp
  next
    case (Suc j)
    with Cons.prems have j: "j < length as" and d: "distinct (map f as)"
      and "f a \<notin> f ` set as" by auto
    then have "f a \<noteq> f (as ! j)" by (metis imageI nth_mem)
    moreover have "findIndex (\<lambda>x. f x = f (as ! j)) as = int j"
      by (rule Cons.IH [OF d j])
    ultimately show ?thesis by (simp add: Suc Let_def)
  qed
qed

lemma currentIndex_known:
  assumes "knownCurrent images sel lastId i"
  shows "currentIndex start images sel lastId = int i"
proof -
  from assms have i: "i < length images" and d: "distinct (map img_id images)"
    by (simp_all add: knownCurrent_def)
  note fi = findIndex_distinct [OF d i]
  show ?thesis
  proof (cases sel)
    case None
    then show ?thesis using assms fi by (simp add: knownCurrent_def currentIndex_def)
  next
    case (Some s)
    then show ?thesis using assms fi by (simp add: knownCurrent_def currentIndex_def)
  qed
qed

lemma next_mod:
  assumes "i < n"
  shows "(if int i + 1 < int n then int i + 1 else 0) = int ((i + 1) mod n)"
  using assms by (cases "i + 1 < n") (auto simp: mod_Suc)

lemma prev_mod:
  assumes "i < n"
  shows "(if int i - 1 \<ge> 0 then int i - 1 else int n - 1) = int ((i + n - 1) mod n)"
proof (cases i)
  case 0
  then show ?thesis using assms by simp
next
  case (Suc j)
  then have "(i + n - 1) mod n = j" using assms by simp
  then show ?thesis using Suc by simp
qed

lemma item_at_nat: "i < length xs \<Longrightarrow> item_at xs (int i) = Some (xs ! i)"
  by (simp add: item_at_def)

lemma thumbNavigation_up_unfolded:
  assumes "draggedImage g = None" and "\<not> now - lastThumbActionTime g < 1000" and "isThumbsUp h"
  shows "thumbNavigation images now (Some h) sel g =
           (let cur = currentIndex (- 1) images sel (lastSelectedId g);
                nextIndex = (if cur + 1 < int (length images) then cur + 1 else 0)
            in (g\<lparr>isThumbScrolling := Some Down, lastThumbActionTime := now,
                   scrollY := max 0 (nextIndex * 140 - 100)\<rparr>,
                [OnImageSelect (item_at images nextIndex) None]))"
  using assms by (simp add: thumbNavigation_def Let_def)

lemma thumbNavigation_down_unfolded:
  assumes "draggedImage g = None" and "\<not> now - lastThumbActionTime g < 1000"
    and "\<not> isThumbsUp h" and "isThumbsDown h"
  shows "thumbNavigation images now (Some h) sel g =
           (let cur = currentIndex 0 images sel (lastSelectedId g);
                prevIndex = (if cur - 1 \<ge> 0 then cur - 1 else int (length images) - 1)
            in (g\<lparr>isThumbScrolling := Some Up, lastThumbActionTime := now,
                   scrollY := max 0 (prevIndex * 140 - 100)\<rparr>,
                [OnImageSelect (item_at images prevIndex) None]))"
  using assms by (simp add: thumbNavigation_def Let_def)

lemma thumbNavigation_up:
  assumes "knownCurrent images sel (lastSelectedId g) i" and "draggedImage g = None"
    and "\<not> now - lastThumbActionTime g < 1000" and "isThumbsUp h"
  shows "thumbNavigation images now (Some h) sel g =
           (g\<lparr>isThumbScrolling := Some Down, lastThumbActionTime := now,
              scrollY := max 0 (int ((i + 1) mod length images) * 140 - 100)\<rparr>,
            [OnImageSelect (Some (images ! ((i + 1) mod length images))) None])"
proof -
  from assms(1) have i: "i < length images" by (simp add: knownCurrent_def)
  then have "0 < length images" by auto
  then have m: "(i + 1) mod length images < length images" by (rule mod_less_divisor)
  show ?thesis
    by (simp only: thumbNavigation_up_unfolded [OF assms(2-4)] Let_def
          currentIndex_known [OF assms(1)] next_mod [OF i] item_at_nat [OF m])
qed

lemma thumbNavigation_down:
  assumes "knownCurrent images sel (lastSelectedId g) i" and "draggedImage g = None"
    and "\<not> now - lastThumbActionTime g < 1000" and "\<not> isThumbsUp h" and "isThumbsDown h"
  shows "thumbNavigation images now (Some h) sel g =
           (g\<lparr>isThumbScrolling := Some Up, lastThumbActionTime := now,
              scrollY := max 0 (int ((i + length images - 1) mod length images) * 140 - 100)\<rparr>,
            [OnImageSelect (Some (images ! ((i + length images - 1) mod length images))) None])"
proof -
  from assms(1) have i: "i < length images" by (simp add: knownCurrent_def)
  then have "0 < length images" by auto
  then have m: "(i + length images - 1) mod length images < length images"
    by (rule mod_less_divisor)
  show ?thesis
    by (simp only: thumbNavigation_down_unfolded [OF assms(2-5)] Let_def
          currentIndex_known [OF assms(1)] prev_mod [OF i] item_at_nat [OF m])
qed

lemma thumbNavigation_cooldown:
  "now - lastThumbActionTime g < 1000 \<Longrightarrow>
     snd (thumbNavigation images now hand sel g) = []
     \<and> lastThumbActionTime (fst (thumbNavigation images now hand sel g)) = lastThumbActionTime g
     \<and> draggedImage (fst (thumbNavigation images now hand sel g)) = draggedImage g"
  by (simp add: thumbNavigation_def split: option.splits)

lemma thumbNavigation_fires:
  assumes "draggedImage g = None" and "\<not> now - lastThumbActionTime g < 1000"
    and "isThumbsUp h \<or> isThumbsDown h"
  shows "length (snd (thumbNavigation images now (Some h) sel g)) = 1
     \<and> lastThumbActionTime (fst (thumbNavigation images now (Some h) sel g)) = now
     \<and> draggedImage (fst (thumbNavigation images now (Some h) sel g)) = None"
  using assms by (auto simp: thumbNavigation_def Let_def)


text \<open>
  C3. No drag is active, the effect runs at time \<open>now\<close> outside the cooldown, and the
  current item is known: \<open>i\<close> is the index of the selected image or, when none is
  selected, of the image whose id is \<open>lastSelectedId\<close>. Then a thumbs-up selects the
  item at index \<open>(i + 1) mod N\<close>, which is 0 from the last index, and a thumbs-down
  selects the item at index \<open>(i - 1 + N) mod N\<close>. After either, every run of the effect
  less than 1000 ms later makes no selection, whatever the hand shows, and a run with a
  thumb gesture 1000 ms or more later makes exactly one.
\<close>

theorem C3_thumbNavigation:
  assumes "knownCurrent images sel (lastSelectedId g) i" and "draggedImage g = None"
    and "\<not> now - lastThumbActionTime g < 1000"
    and "g' = fst (thumbNavigation images now (Some h) sel g)"
  shows "(isThumbsUp h \<longrightarrow>
            snd (thumbNavigation images now (Some h) sel g) =
              [OnImageSelect (Some (images ! ((i + 1) mod length images))) None])
     \<and> (Suc i = length images \<longrightarrow> (i + 1) mod length images = 0)
     \<and> (\<not> isThumbsUp h \<and> isThumbsDown h \<longrightarrow>
            snd (thumbNavigation images now (Some h) sel g) =
              [OnImageSelect (Some (images ! ((i + length images - 1) mod length images))) None])
     \<and> (isThumbsUp h \<or> isThumbsDown h \<longrightarrow>
            (now' - now < 1000 \<longrightarrow> snd (thumbNavigation images now' hand' sel' g') = [])
          \<and> (now' - now \<ge> 1000 \<and> (isThumbsUp h' \<or> isThumbsDown h') \<longrightarrow>
                length (snd (thumbNavigation images now' (Some h') sel' g')) = 1))"
proof -
  have up: "snd (thumbNavigation images now (Some h) sel g) =
              [OnImageSelect (Some (images ! ((i + 1) mod length images))) None]"
    if "isThumbsUp h"
    using thumbNavigation_up [OF assms(1-3) that] by simp
  have down: "snd (thumbNavigation images now (Some h) sel g) =
              [OnImageSelect (Some (images ! ((i + length images - 1) mod length images))) None]"
    if "\<not> isThumbsUp h" "isThumbsDown h"
    using thumbNavigation_down [OF assms(1-3) that] by simp
  have fired: "lastThumbActionTime g' = now \<and> draggedImage g' = None"
    if "isThumbsUp h \<or> isThumbsDown h"
    using thumbNavigation_fires [OF assms(2,3) that] assms(4) by simp
  have quiet: "snd (thumbNavigation images now' hand' sel' g') = []"
    if "isThumbsUp h \<or> isThumbsDown h" "now' - now < 1000"
    using thumbNavigation_cooldown [of now' g'] fired [OF that(1)] that(2) by simp
  have again: "length (snd (thumbNavigation images now' (Some h') sel' g')) = 1"
    if "isThumbsUp h \<or> isThumbsDown h" "now' - now \<ge> 1000" "isThumbsUp h' \<or> isThumbsDown h'"
    using thumbNavigation_fires [of g' now' h'] fired [OF that(1)] that(2,3) by simp
  show ?thesis
    using up down quiet again by auto
qed

text \<open>
  C10. Nothing is selected and \<open>lastSelectedId\<close> is null: the current index defaults to
  -1 for next and to 0 for previous, so outside the cooldown a thumbs-up selects the
  first item and a thumbs-down selects the last item.
\<close>

theorem C10_default_indices:
  assumes "lastSelectedId g = None" and "draggedImage g = None"
    and "\<not> now - lastThumbActionTime g < 1000" and "images \<noteq> []"
  shows "currentIndex (- 1) images None (lastSelectedId g) = - 1
     \<and> currentIndex 0 images None (lastSelectedId g) = 0
     \<and> (isThumbsUp h \<longrightarrow>
           snd (thumbNavigation images now (Some h) None g) =
             [OnImageSelect (Some (images ! 0)) None])
     \<and> (\<not> isThumbsUp h \<and> isThumbsDown h \<longrightarrow>
           snd (thumbNavigation images now (Some h) None g) =
             [OnImageSelect (Some (images ! (length images - 1))) None])"
proof -
  have cur: "currentIndex start images None (lastSelectedId g) = start" for start
    using assms(1) by (simp add: currentIndex_def)
  have n: "0 < length images" using assms(4) by simp
  have first: "item_at images 0 = Some (images ! 0)"
    using item_at_nat [of 0 images] n by simp
  have "int (length images) - 1 = int (length images - 1)"
    using assms(4) by (cases images) simp_all
  then have final: "item_at images (int (length images) - 1) = Some (images ! (length images - 1))"
    using item_at_nat [of "length images - 1" images] n by simp
  have up: "snd (thumbNavigation images now (Some h) None g) =
             [OnImageSelect (Some (images ! 0)) None]" if "isThumbsUp h"
    using n first by (simp add: thumbNavigation_up_unfolded [OF assms(2,3) that] cur)
  have down: "snd (thumbNavigation images now (Some h) None g) =
             [OnImageSelect (Some (images ! (length images - 1))) None]"
    if "\<not> isThumbsUp h" "isThumbsDown h"
    using final by (simp add: thumbNavigation_down_unfolded [OF assms(2,3) that] cur)
  show ?thesis using cur up down by simp
qed

lemma trackSelected_keeps:
  "lastThumbActionTime (trackSelected sel g) = lastThumbActionTime g"
  "draggedImage (trackSelected sel g) = draggedImage g"
  by (simp_all add: trackSelected_def split: option.splits)

lemma navTick_cooldown:
  assumes "fst tick - lastThumbActionTime (snd s) < 1000"
  shows "snd (navTick images tick s) = []
     \<and> lastThumbActionTime (snd (fst (navTick images tick s))) = lastThumbActionTime (snd s)
     \<and> draggedImage (snd (fst (navTick images tick s))) = draggedImage (snd s)"
  using thumbNavigation_cooldown [of "fst tick" "trackSelected (selectedImage (fst s)) (snd s)"
      images "snd tick" "selectedImage (fst s)"] assms
  by (simp add: navTick_def trackSelected_keeps Let_def split_beta)

lemma navTick_fires:
  assumes "draggedImage (snd s) = None" and "\<not> t - lastThumbActionTime (snd s) < 1000"
    and "isThumbsUp h \<or> isThumbsDown h"
  shows "length (snd (navTick images (t, Some h) s)) = 1
     \<and> lastThumbActionTime (snd (fst (navTick images (t, Some h) s))) = t
     \<and> draggedImage (snd (fst (navTick images (t, Some h) s))) = None"
  using thumbNavigation_fires [of "trackSelected (selectedImage (fst s)) (snd s)" t h
      images "selectedImage (fst s)"] assms
  by (simp add: navTick_def trackSelected_keeps Let_def split_beta)

lemma navRun_cooldown:
  assumes "\<forall>tick \<in> set ticks. fst tick - lastThumbActionTime (snd s) < 1000"
  shows "navRun images ticks s = []"
  using assms
proof (induction ticks arbitrary: s)
  case Nil
  then show ?case by simp
next
  case (Cons tick ticks)
  then have c: "fst tick - lastThumbActionTime (snd s) < 1000" by simp
  note step = navTick_cooldown [OF c, of images]
  have "navRun images ticks (fst (navTick images tick s)) = []"
    using Cons.prems step by (intro Cons.IH) simp
  then show ?case using step by (simp add: split_beta)
qed

lemma navRun_cooldown_then_fire:
  assumes "\<forall>tick \<in> set ticks. fst tick - lastThumbActionTime (snd s) < 1000"
    and "draggedImage (snd s) = None" and "\<not> t1 - lastThumbActionTime (snd s) < 1000"
    and "isThumbsUp h1 \<or> isThumbsDown h1"
  shows "length (navRun images (ticks @ [(t1, Some h1)]) s) = 1"
  using assms
proof (induction ticks arbitrary: s)
  case Nil
  then show ?case using navTick_fires [of s t1 h1 images] by (simp add: split_beta)
next
  case (Cons tick ticks)
  then have c: "fst tick - lastThumbActionTime (snd s) < 1000" by simp
  note step = navTick_cooldown [OF c, of images]
  have "length (navRun images (ticks @ [(t1, Some h1)]) (fst (navTick images tick s))) = 1"
    using Cons.prems step by (intro Cons.IH) simp_all
  then show ?case using step by (simp add: split_beta)
qed

text \<open>
  C4, amended. The thumb gesture is first seen at time \<open>t0\<close>, outside the cooldown and
  with no drag active. As long as every later run of the effect is less than 1000 ms
  after \<open>t0\<close>, exactly one selection is made in all, whatever the hand shows in those
  runs. A gesture still shown 1000 ms or more after \<open>t0\<close> makes a second selection.
\<close>

theorem C4_one_event_per_cooldown:
  assumes "draggedImage (snd s) = None" and "\<not> t0 - lastThumbActionTime (snd s) < 1000"
    and "isThumbsUp h \<or> isThumbsDown h"
    and "\<forall>tick \<in> set ticks. fst tick - t0 < 1000"
  shows "length (navRun images ((t0, Some h) # ticks) s) = 1
     \<and> (t1 - t0 \<ge> 1000 \<and> (isThumbsUp h1 \<or> isThumbsDown h1) \<longrightarrow>
          length (navRun images ((t0, Some h) # ticks @ [(t1, Some h1)]) s) = 2)"
proof -
  let ?s1 = "fst (navTick images (t0, Some h) s)"
  note fire = navTick_fires [OF assms(1-3), of images]
  then have stamp: "lastThumbActionTime (snd ?s1) = t0" and nodrag: "draggedImage (snd ?s1) = None"
    by simp_all
  have quiet: "navRun images ticks ?s1 = []"
    using assms(4) by (intro navRun_cooldown) (simp add: stamp)
  have one: "length (navRun images ((t0, Some h) # ticks) s) = 1"
    using fire quiet by (simp add: split_beta)
  have two: "length (navRun images ((t0, Some h) # ticks @ [(t1, Some h1)]) s) = 2"
    if "t1 - t0 \<ge> 1000" "isThumbsUp h1 \<or> isThumbsDown h1"
  proof -
    have "length (navRun images (ticks @ [(t1, Some h1)]) ?s1) = 1"
      using assms(4) that nodrag by (intro navRun_cooldown_then_fire) (simp_all add: stamp)
    then show ?thesis using fire by (simp add: split_beta)
  qed
  show ?thesis using one two by simp
qed

text \<open>
  C5, amended. When the right hand is null the drag-release effect changes nothing and
  calls nothing: a dragged image stays engaged. The drag is released, and
  \<open>setIsDragging(false)\<close> called, by a snapshot whose right hand is present and not
  pinching.
\<close>

theorem C5_null_hand_keeps_drag:
  "dragRelease w None g = (g, [])
   \<and> (draggedImage g \<noteq> None \<and> \<not> isPinching h \<longrightarrow>
        draggedImage (fst (dragRelease w (Some h) g)) = None
      \<and> last (snd (dragRelease w (Some h) g)) = SetIsDragging False)"
  by (auto simp: dragRelease_def Let_def split: option.splits)


lemma sampleHandData_flags:
  "isThumbsUp upHand" "\<not> isThumbsDown upHand"
  "\<not> isThumbsUp downHand" "isThumbsDown downHand"
  "\<not> isThumbsUp idleHand" "\<not> isThumbsDown idleHand"
  by (simp_all add: upHand_def downHand_def idleHand_def sampleHandData_def)

lemma fiveImages_known:
  "knownCurrent fiveImages (Some sampleImage) (lastSelectedId initialGallery) 2"
  "knownCurrent fiveImages (Some (fiveImages ! 4)) (lastSelectedId initialGallery) 4"
  by (simp_all add: knownCurrent_def fiveImages_def sampleImage_def)

theorem C3_thumbNavigation_witness:
  "knownCurrent fiveImages (Some sampleImage) (lastSelectedId initialGallery) 2
   \<and> knownCurrent fiveImages (Some (fiveImages ! 4)) (lastSelectedId initialGallery) 4
   \<and> draggedImage initialGallery = None
   \<and> \<not> 5000 - lastThumbActionTime initialGallery < 1000
   \<and> isThumbsUp upHand \<and> \<not> isThumbsUp downHand \<and> isThumbsDown downHand
   \<and> snd (thumbNavigation fiveImages 5000 (Some upHand) (Some sampleImage) initialGallery) =
        [OnImageSelect (Some (fiveImages ! 3)) None]
   \<and> snd (thumbNavigation fiveImages 5000 (Some upHand) (Some (fiveImages ! 4)) initialGallery) =
        [OnImageSelect (Some (fiveImages ! 0)) None]
   \<and> snd (thumbNavigation fiveImages 5000 (Some downHand) (Some sampleImage) initialGallery) =
        [OnImageSelect (Some (fiveImages ! 1)) None]
   \<and> 5200 - 5000 < (1000 :: int)
   \<and> snd (thumbNavigation fiveImages 5200 (Some upHand) (Some (fiveImages ! 3))
        (fst (thumbNavigation fiveImages 5000 (Some upHand) (Some sampleImage) initialGallery)))
       = []
   \<and> 6000 - 5000 \<ge> (1000 :: int)
   \<and> length (snd (thumbNavigation fiveImages 6000 (Some upHand) (Some (fiveImages ! 3))
        (fst (thumbNavigation fiveImages 5000 (Some upHand) (Some sampleImage) initialGallery))))
       = 1"
proof -
  have nd: "draggedImage initialGallery = None"
    and t: "\<not> 5000 - lastThumbActionTime initialGallery < 1000"
    by (simp_all add: initialGallery_def)
  have len: "length fiveImages = 5" by (simp add: fiveImages_def)
  note up = C3_thumbNavigation [OF fiveImages_known(1) nd t refl,
      where h = upHand and now' = 5200 and hand' = "Some upHand" and sel' = "Some (fiveImages ! 3)"]
  note later = C3_thumbNavigation [OF fiveImages_known(1) nd t refl,
      where h = upHand and now' = 6000 and h' = upHand and sel' = "Some (fiveImages ! 3)"]
  note wrap = C3_thumbNavigation [OF fiveImages_known(2) nd t refl, where h = upHand]
  note down = C3_thumbNavigation [OF fiveImages_known(1) nd t refl, where h = downHand]
  show ?thesis
    using up later wrap down fiveImages_known nd t
    by (simp add: sampleHandData_flags len)
qed

theorem C10_default_indices_witness:
  "lastSelectedId initialGallery = None \<and> draggedImage initialGallery = None
   \<and> \<not> 5000 - lastThumbActionTime initialGallery < 1000 \<and> GALLERY_IMAGES \<noteq> []
   \<and> isThumbsUp upHand \<and> \<not> isThumbsUp downHand \<and> isThumbsDown downHand
   \<and> snd (thumbNavigation GALLERY_IMAGES 5000 (Some upHand) None initialGallery) =
        [OnImageSelect (Some (GALLERY_IMAGES ! 0)) None]
   \<and> snd (thumbNavigation GALLERY_IMAGES 5000 (Some downHand) None initialGallery) =
        [OnImageSelect (Some (GALLERY_IMAGES ! 22)) None]"
proof -
  have a: "lastSelectedId initialGallery = None" "draggedImage initialGallery = None"
    "\<not> 5000 - lastThumbActionTime initialGallery < 1000"
    by (simp_all add: initialGallery_def)
  have len: "length GALLERY_IMAGES = 23" by (simp add: GALLERY_IMAGES_def)
  then have ne: "GALLERY_IMAGES \<noteq> []" by auto
  show ?thesis
    using C10_default_indices [OF a ne, of upHand] C10_default_indices [OF a ne, of downHand] a ne
    by (simp add: sampleHandData_flags len)
qed

text \<open>
  C4 as stated fails: the thumb goes up at 5100 ms and stays up; the effect makes a
  selection at 5100 ms and another at 6100 ms.
\<close>

theorem C4_held_gesture_counterexample:
  "\<not> isThumbsUp idleHand \<and> isThumbsUp upHand
   \<and> navRun fiveImages
        [(5000, Some idleHand), (5100, Some upHand), (5600, Some upHand), (6100, Some upHand)]
        (initialPage, initialGallery)
       = [OnImageSelect (Some (fiveImages ! 0)) None, OnImageSelect (Some (fiveImages ! 1)) None]"
  by (simp add: navTick_def thumbNavigation_def trackSelected_def currentIndex_def item_at_def
        fiveImages_def upHand_def idleHand_def sampleHandData_def initialGallery_def
        initialPage_def Let_def)

theorem C4_one_event_per_cooldown_witness:
  "draggedImage (snd (initialPage, initialGallery)) = None
   \<and> \<not> 5100 - lastThumbActionTime (snd (initialPage, initialGallery)) < 1000
   \<and> isThumbsUp upHand
   \<and> 5600 - 5100 < (1000 :: int) \<and> 6099 - 5100 < (1000 :: int)
   \<and> length (navRun fiveImages [(5100, Some upHand), (5600, Some upHand), (6099, Some upHand)]
        (initialPage, initialGallery)) = 1
   \<and> 6100 - 5100 \<ge> (1000 :: int)
   \<and> length (navRun fiveImages
        [(5100, Some upHand), (5600, Some upHand), (6099, Some upHand), (6100, Some upHand)]
        (initialPage, initialGallery)) = 2"
proof -
  have a: "draggedImage (snd (initialPage, initialGallery)) = None"
    "\<not> 5100 - lastThumbActionTime (snd (initialPage, initialGallery)) < 1000"
    by (simp_all add: initialGallery_def)
  have b: "isThumbsUp upHand \<or> isThumbsDown upHand" by (simp add: sampleHandData_flags)
  have c: "\<forall>tick \<in> set [(5600 :: int, Some upHand), (6099, Some upHand)]. fst tick - 5100 < 1000"
    by simp
  show ?thesis
    using C4_one_event_per_cooldown [OF a b c, of fiveImages 6100 upHand] a
    by (simp add: sampleHandData_flags)
qed

text \<open>
  C5 as stated fails: with an image being dragged and a null right hand, the effect
  returns the same state, the image still dragged, and makes no call.
\<close>

theorem C5_null_hand_counterexample:
  "draggedImage draggingGallery = Some sampleImage
   \<and> dragRelease sampleWindow None draggingGallery = (draggingGallery, [])"
  by (simp add: dragRelease_def draggingGallery_def initialGallery_def)

theorem C5_null_hand_keeps_drag_witness:
  "dragRelease sampleWindow None draggingGallery = (draggingGallery, [])
   \<and> draggedImage draggingGallery \<noteq> None \<and> \<not> isPinching idleHand
   \<and> draggedImage (fst (dragRelease sampleWindow (Some idleHand) draggingGallery)) = None
   \<and> last (snd (dragRelease sampleWindow (Some idleHand) draggingGallery)) = SetIsDragging False"
  using C5_null_hand_keeps_drag [of sampleWindow draggingGallery idleHand]
  by (simp add: draggingGallery_def initialGallery_def idleHand_def sampleHandData_def)

end
